theory Spec2Isabelle
  imports Main "HOL-Library.Word"
begin

section \<open>JavaScript strings and the platform's URI codecs\<close>

text \<open>
  A JavaScript string is a sequence of UTF-16 code units, and \<open>length\<close>, \<open>slice\<close>,
  \<open>startsWith\<close> and \<open>!==\<close> all work on code units. The embedding therefore uses lists of
  16-bit words. \<open>js\<close> turns an ASCII literal of the theory into such a string.
\<close>

type_synonym jsstring = "16 word list"

definition cu :: "char \<Rightarrow> 16 word" where
  "cu c = of_nat (of_char c)"

definition js :: "string \<Rightarrow> jsstring" where
  "js = map cu"

text \<open>The two errors the platform functions used by the SDK can raise.\<close>

datatype error = TypeError | URIError

subsection \<open>UTF-16 and UTF-8\<close>

definition is_lead :: "16 word \<Rightarrow> bool" where
  "is_lead u \<longleftrightarrow> 0xD800 \<le> u \<and> u \<le> 0xDBFF"

definition is_trail :: "16 word \<Rightarrow> bool" where
  "is_trail u \<longleftrightarrow> 0xDC00 \<le> u \<and> u \<le> 0xDFFF"

definition pair_cp :: "16 word \<Rightarrow> 16 word \<Rightarrow> nat" where
  "pair_cp hi lo = 0x10000 + (unat hi - 0xD800) * 0x400 + (unat lo - 0xDC00)"

definition utf16_units :: "nat \<Rightarrow> jsstring" where
  "utf16_units cp =
     (if cp < 0x10000 then [of_nat cp]
      else [of_nat (0xD800 + (cp - 0x10000) div 0x400),
            of_nat (0xDC00 + (cp - 0x10000) mod 0x400)])"

definition utf8_octets :: "nat \<Rightarrow> nat list" where
  "utf8_octets cp =
     (if cp < 0x80 then [cp]
      else if cp < 0x800 then [0xC0 + cp div 64, 0x80 + cp mod 64]
      else if cp < 0x10000 then
        [0xE0 + cp div 4096, 0x80 + (cp div 64) mod 64, 0x80 + cp mod 64]
      else
        [0xF0 + cp div 262144, 0x80 + (cp div 4096) mod 64,
         0x80 + (cp div 64) mod 64, 0x80 + cp mod 64])"

text \<open>A Unicode scalar value: a code point that is not a surrogate.\<close>

definition scalar :: "nat \<Rightarrow> bool" where
  "scalar cp \<longleftrightarrow> cp < 0x110000 \<and> \<not> (0xD800 \<le> cp \<and> cp \<le> 0xDFFF)"

definition is_cont :: "nat \<Rightarrow> bool" where
  "is_cont b \<longleftrightarrow> 0x80 \<le> b \<and> b < 0xC0"

text \<open>
  The code point of a well-formed UTF-8 sequence of two, three or four octets: no
  overlong form, no surrogate, nothing above U+10FFFF.
\<close>

fun utf8_code_point :: "nat list \<Rightarrow> nat option" where
  "utf8_code_point [b0, b1] =
     (let cp = (b0 - 0xC0) * 64 + (b1 - 0x80)
      in if is_cont b1 \<and> 0x80 \<le> cp then Some cp else None)"
| "utf8_code_point [b0, b1, b2] =
     (let cp = (b0 - 0xE0) * 4096 + (b1 - 0x80) * 64 + (b2 - 0x80)
      in if is_cont b1 \<and> is_cont b2 \<and> 0x800 \<le> cp \<and> \<not> (0xD800 \<le> cp \<and> cp \<le> 0xDFFF)
         then Some cp else None)"
| "utf8_code_point [b0, b1, b2, b3] =
     (let cp = (b0 - 0xF0) * 262144 + (b1 - 0x80) * 4096 + (b2 - 0x80) * 64 + (b3 - 0x80)
      in if is_cont b1 \<and> is_cont b2 \<and> is_cont b3 \<and> 0x10000 \<le> cp \<and> cp \<le> 0x10FFFF
         then Some cp else None)"
| "utf8_code_point _ = None"

subsection \<open>Percent escapes\<close>

definition hex_digit :: "nat \<Rightarrow> 16 word" where
  "hex_digit n = (if n < 10 then of_nat (0x30 + n) else of_nat (0x37 + n))"

definition hex_value :: "16 word \<Rightarrow> nat option" where
  "hex_value u =
     (if 0x30 \<le> u \<and> u \<le> 0x39 then Some (unat u - 0x30)
      else if 0x41 \<le> u \<and> u \<le> 0x46 then Some (unat u - 0x37)
      else if 0x61 \<le> u \<and> u \<le> 0x66 then Some (unat u - 0x57)
      else None)"

definition percent :: "16 word" where
  "percent = 0x25"

definition pct_octet :: "nat \<Rightarrow> jsstring" where
  "pct_octet b = [percent, hex_digit (b div 16), hex_digit (b mod 16)]"

definition pct_octets :: "nat list \<Rightarrow> jsstring" where
  "pct_octets bs = concat (map pct_octet bs)"

text \<open>Reads one escape \<open>%XX\<close> from the front of a string: the octet and what follows it.\<close>

fun read_escape :: "jsstring \<Rightarrow> (nat \<times> jsstring) option" where
  "read_escape (p # h # l # rest) =
     (if p = percent then
        (case (hex_value h, hex_value l) of
           (Some a, Some b) \<Rightarrow> Some (a * 16 + b, rest)
         | _ \<Rightarrow> None)
      else None)"
| "read_escape _ = None"

text \<open>Reads \<open>n\<close> escapes in a row.\<close>

fun read_escapes :: "nat \<Rightarrow> jsstring \<Rightarrow> (nat list \<times> jsstring) option" where
  "read_escapes 0 s = Some ([], s)"
| "read_escapes (Suc n) s =
     (case read_escape s of
        None \<Rightarrow> None
      | Some (b, rest) \<Rightarrow>
          (case read_escapes n rest of
             None \<Rightarrow> None
           | Some (bs, rest') \<Rightarrow> Some (b # bs, rest')))"

subsection \<open>encodeURIComponent\<close>

text \<open>
  ECMAScript \<open>encodeURIComponent\<close>: the unreserved characters are the ASCII letters and
  digits and \<open>- _ . ! ~ * ' ( )\<close>; every other code point is written as the escapes of
  its UTF-8 octets; a surrogate that is not part of a pair raises \<open>URIError\<close>.
\<close>

definition is_alnum :: "16 word \<Rightarrow> bool" where
  "is_alnum u \<longleftrightarrow>
     (0x30 \<le> u \<and> u \<le> 0x39) \<or> (0x41 \<le> u \<and> u \<le> 0x5A) \<or> (0x61 \<le> u \<and> u \<le> 0x7A)"

definition uri_unreserved :: "16 word \<Rightarrow> bool" where
  "uri_unreserved u \<longleftrightarrow> is_alnum u \<or> u \<in> set (js ''-_.!~*'()'')"

fun encodeURIComponent :: "jsstring \<Rightarrow> error + jsstring" where
  "encodeURIComponent [] = Inr []"
| "encodeURIComponent (u # us) =
     (if uri_unreserved u then
        (case encodeURIComponent us of Inl e \<Rightarrow> Inl e | Inr r \<Rightarrow> Inr (u # r))
      else if is_lead u then
        (case us of
           [] \<Rightarrow> Inl URIError
         | v # vs \<Rightarrow>
             if is_trail v then
               (case encodeURIComponent vs of
                  Inl e \<Rightarrow> Inl e
                | Inr r \<Rightarrow> Inr (pct_octets (utf8_octets (pair_cp u v)) @ r))
             else Inl URIError)
      else if is_trail u then Inl URIError
      else
        (case encodeURIComponent us of
           Inl e \<Rightarrow> Inl e
         | Inr r \<Rightarrow> Inr (pct_octets (utf8_octets (unat u)) @ r)))"

subsection \<open>decodeURIComponent\<close>

text \<open>
  ECMAScript \<open>decodeURIComponent\<close>: a code unit other than \<open>%\<close> is copied; an escape
  below \<open>0x80\<close> is that character; a larger first octet announces, by its leading one
  bits, a UTF-8 sequence of two to four escaped octets, which must be well formed.
  Every malformed input raises \<open>URIError\<close>.
\<close>

definition utf8_length :: "nat \<Rightarrow> nat option" where
  "utf8_length b =
     (if b < 0xC0 then None
      else if b < 0xE0 then Some 2
      else if b < 0xF0 then Some 3
      else if b < 0xF8 then Some 4
      else None)"

text \<open>
  One decoding step on a string that starts with \<open>%\<close>: the code units decoded from the
  escape sequence at its front, and the rest of the string.
\<close>

definition decode_escape :: "jsstring \<Rightarrow> (jsstring \<times> jsstring) option" where
  "decode_escape s =
     (case read_escape s of
        None \<Rightarrow> None
      | Some (b, rest) \<Rightarrow>
          if b < 0x80 then Some ([of_nat b], rest)
          else
            (case utf8_length b of
               None \<Rightarrow> None
             | Some n \<Rightarrow>
                 (case read_escapes (n - 1) rest of
                    None \<Rightarrow> None
                  | Some (bs, rest') \<Rightarrow>
                      (case utf8_code_point (b # bs) of
                         None \<Rightarrow> None
                       | Some cp \<Rightarrow> Some (utf16_units cp, rest')))))"

lemma read_escape_shorter: "read_escape s = Some (b, rest) \<Longrightarrow> length rest < length s"
  by (induction s rule: read_escape.induct) (auto split: if_splits option.splits)

lemma read_escapes_shorter: "read_escapes n s = Some (bs, rest) \<Longrightarrow> length rest \<le> length s"
proof (induction n arbitrary: s bs rest)
  case 0
  then show ?case by simp
next
  case (Suc n)
  then show ?case
    by (fastforce split: option.splits dest: read_escape_shorter)
qed

lemma decode_escape_shorter: "decode_escape s = Some (out, rest) \<Longrightarrow> length rest < length s"
  unfolding decode_escape_def
  by (fastforce split: option.splits if_splits
        dest: read_escape_shorter read_escapes_shorter)

function decodeURIComponent :: "jsstring \<Rightarrow> error + jsstring" where
  "decodeURIComponent [] = Inr []"
| "decodeURIComponent (c # cs) =
     (if c \<noteq> percent then
        (case decodeURIComponent cs of Inl e \<Rightarrow> Inl e | Inr r \<Rightarrow> Inr (c # r))
      else
        (case decode_escape (c # cs) of
           None \<Rightarrow> Inl URIError
         | Some (out, rest) \<Rightarrow>
             (case decodeURIComponent rest of Inl e \<Rightarrow> Inl e | Inr r \<Rightarrow> Inr (out @ r))))"
  by pat_completeness auto
termination
  by (relation "measure length") (auto dest: decode_escape_shorter)

section \<open>The configuration serializer (\<open>formatChekinUrl\<close>)\<close>

subsection \<open>The platform's \<open>URL\<close> object\<close>

text \<open>
  Of a parsed \<open>URL\<close> the serializer touches only \<open>searchParams\<close> and \<open>toString()\<close>, so
  the embedding keeps three parts: the serialized scheme, authority and path, the list of
  query parameters, and the fragment. Parsing itself (\<open>new URL(baseUrl)\<close>) is the
  platform's: every function below takes the parser as its first argument, \<open>None\<close> standing
  for the \<open>TypeError\<close> of an invalid address.
\<close>

record URL =
  u_pre :: jsstring
  u_params :: "(jsstring \<times> jsstring) list"
  u_fragment :: "jsstring option"

type_synonym url_parser = "jsstring \<Rightarrow> URL option"

text \<open>
  The parser restricted to the addresses of the examples: an absolute address in
  serialized form that has neither query nor fragment parses to itself.
\<close>

definition plain_URL :: url_parser where
  "plain_URL s =
     (if cu CHR ''?'' \<in> set s \<or> cu CHR ''#'' \<in> set s then None
      else Some \<lparr>u_pre = s, u_params = [], u_fragment = None\<rparr>)"

text \<open>
  \<open>URLSearchParams.set\<close>: the first pair of that name takes the value and the other pairs
  of that name are removed; without such a pair, a new one is appended.
\<close>

fun set_first :: "jsstring \<Rightarrow> jsstring \<Rightarrow> (jsstring \<times> jsstring) list \<Rightarrow> (jsstring \<times> jsstring) list" where
  "set_first n v [] = []"
| "set_first n v ((k, x) # ps) =
     (if k = n then (n, v) # filter (\<lambda>kv. fst kv \<noteq> n) ps else (k, x) # set_first n v ps)"

definition searchParams_set :: "jsstring \<Rightarrow> jsstring \<Rightarrow> URL \<Rightarrow> URL" where
  "searchParams_set n v u =
     u\<lparr>u_params := (if n \<in> fst ` set (u_params u) then set_first n v (u_params u)
                     else u_params u @ [(n, v)])\<rparr>"

text \<open>
  The \<open>application/x-www-form-urlencoded\<close> serializer that writes the parameter list into
  the address: letters, digits and \<open>* - . _\<close> stay, a space becomes \<open>+\<close>, everything
  else becomes the escapes of its UTF-8 octets; a surrogate outside a pair counts as U+FFFD.
\<close>

definition form_safe :: "16 word \<Rightarrow> bool" where
  "form_safe u \<longleftrightarrow> is_alnum u \<or> u \<in> set (js ''*-._'')"

fun form_urlencode :: "jsstring \<Rightarrow> jsstring" where
  "form_urlencode [] = []"
| "form_urlencode (u # us) =
     (if is_lead u then
        (case us of
           [] \<Rightarrow> pct_octets (utf8_octets 0xFFFD)
         | v # vs \<Rightarrow>
             if is_trail v then pct_octets (utf8_octets (pair_cp u v)) @ form_urlencode vs
             else pct_octets (utf8_octets 0xFFFD) @ form_urlencode us)
      else if is_trail u then pct_octets (utf8_octets 0xFFFD) @ form_urlencode us
      else if u = 0x20 then cu CHR ''+'' # form_urlencode us
      else if form_safe u then u # form_urlencode us
      else pct_octets (utf8_octets (unat u)) @ form_urlencode us)"

fun serialize_params :: "(jsstring \<times> jsstring) list \<Rightarrow> jsstring" where
  "serialize_params [] = []"
| "serialize_params [(n, v)] = form_urlencode n @ cu CHR ''='' # form_urlencode v"
| "serialize_params ((n, v) # ps) =
     form_urlencode n @ cu CHR ''='' # form_urlencode v @ cu CHR ''&'' # serialize_params ps"

definition URL_toString :: "URL \<Rightarrow> jsstring" where
  "URL_toString u =
     u_pre u
     @ (if u_params u = [] then [] else cu CHR ''?'' # serialize_params (u_params u))
     @ (case u_fragment u of None \<Rightarrow> [] | Some f \<Rightarrow> cu CHR ''#'' # f)"

subsection \<open>Configuration and result\<close>

text \<open>
  \<open>ChekinHostSDKConfig\<close>, without its three callback slots, which the functions embedded
  here never read. An optional field that is absent is \<open>None\<close>.
\<close>

record ChekinHostSDKConfig =
  apiKey :: jsstring
  baseUrl :: "jsstring option"
  version :: "jsstring option"
  defaultLanguage :: "jsstring option"
  styles :: "jsstring option"
  stylesLink :: "jsstring option"
  autoHeight :: "bool option"
  enableLogging :: "bool option"
  routeSync :: "bool option"

text \<open>
  The overflow payload, a \<open>Partial<ChekinHostSDKConfig>\<close> that only ever receives three
  keys. \<open>None\<close> is a key that is not there; \<open>pm_defaultLanguage = Some None\<close> is the key
  \<open>defaultLanguage\<close> holding \<open>undefined\<close>.
\<close>

record overflow =
  pm_stylesLink :: "jsstring option"
  pm_styles :: "jsstring option"
  pm_defaultLanguage :: "jsstring option option"

definition empty_overflow :: overflow where
  "empty_overflow = \<lparr>pm_stylesLink = None, pm_styles = None, pm_defaultLanguage = None\<rparr>"

definition Object_keys :: "overflow \<Rightarrow> string list" where
  "Object_keys pm =
     (if pm_stylesLink pm = None then [] else [''stylesLink''])
     @ (if pm_styles pm = None then [] else [''styles''])
     @ (if pm_defaultLanguage pm = None then [] else [''defaultLanguage''])"

record UrlConfigResult =
  url :: jsstring
  postMessageConfig :: "overflow option"
  isLengthLimited :: bool

subsection \<open>\<open>getBaseUrl\<close>\<close>

text \<open>
  \<open>VersionMapper[version]\<close> is a lookup in a plain object: it is truthy for the three own
  keys and for every property name inherited from \<open>Object.prototype\<close>.
\<close>

definition VersionMapper_truthy :: "jsstring \<Rightarrow> bool" where
  "VersionMapper_truthy v \<longleftrightarrow>
     v \<in> js ` {''latest'', ''development'', ''dev'',
               ''constructor'', ''hasOwnProperty'', ''isPrototypeOf'', ''propertyIsEnumerable'',
               ''toLocaleString'', ''toString'', ''valueOf'', ''__proto__'',
               ''__defineGetter__'', ''__defineSetter__'', ''__lookupGetter__'',
               ''__lookupSetter__''}"

definition startsWith :: "jsstring \<Rightarrow> char \<Rightarrow> bool" where
  "startsWith s c = (case s of [] \<Rightarrow> False | u # _ \<Rightarrow> u = cu c)"

definition getBaseUrl :: "jsstring \<Rightarrow> jsstring" where
  "getBaseUrl v =
     (let normalizedVersion =
            (if VersionMapper_truthy v then v
             else if startsWith v CHR ''v'' then v
             else cu CHR ''v'' # v)
      in js ''https://cdn.chekin.com/inbox-sdk/'' @ normalizedVersion @ js ''/index.html'')"

definition URL_LENGTH_LIMITS_SAFE_LIMIT :: nat where
  "URL_LENGTH_LIMITS_SAFE_LIMIT = 2000"

subsection \<open>\<open>formatChekinUrl\<close>\<close>

text \<open>\<open>a || b\<close> on an optional string: an absent or empty \<open>a\<close> gives \<open>b\<close>.\<close>

definition or_default :: "jsstring option \<Rightarrow> jsstring \<Rightarrow> jsstring" where
  "or_default a b = (case a of None \<Rightarrow> b | Some s \<Rightarrow> if s = [] then b else s)"

definition resolve_base :: "ChekinHostSDKConfig \<Rightarrow> jsstring" where
  "resolve_base config =
     (let v = or_default (version config) (js ''latest'')
      in or_default (baseUrl config) (getBaseUrl v))"

definition String_of_bool :: "bool \<Rightarrow> jsstring" where
  "String_of_bool b = (if b then js ''true'' else js ''false'')"

text \<open>
  The entries of \<open>essentialParams\<close> in their order, each already passed through
  \<open>String\<close>. None of the three fields is an array, so the \<open>Array.isArray\<close> branch of the
  source is never taken for a configuration of this type.
\<close>

definition essentialParams :: "ChekinHostSDKConfig \<Rightarrow> (jsstring \<times> jsstring option) list" where
  "essentialParams config =
     [(js ''apiKey'', Some (apiKey config)),
      (js ''lang'', defaultLanguage config),
      (js ''autoHeight'', map_option String_of_bool (autoHeight config))]"

definition add_essential :: "ChekinHostSDKConfig \<Rightarrow> URL \<Rightarrow> URL" where
  "add_essential config u =
     fold (\<lambda>(key, val) u. case val of None \<Rightarrow> u | Some s \<Rightarrow> searchParams_set key s u)
          (essentialParams config) u"

type_synonym builder = "URL \<times> overflow \<times> bool"

definition stylesLink_step :: "ChekinHostSDKConfig \<Rightarrow> builder \<Rightarrow> error + builder" where
  "stylesLink_step config b =
     (case b of (u, pm, limited) \<Rightarrow>
        (case stylesLink config of
           None \<Rightarrow> Inr b
         | Some v \<Rightarrow>
             if v = [] then Inr b
             else
               (case encodeURIComponent v of
                  Inl e \<Rightarrow> Inl e
                | Inr encodedStylesLink \<Rightarrow>
                    if length encodedStylesLink < 500
                    then Inr (searchParams_set (js ''stylesLink'') encodedStylesLink u, pm, limited)
                    else Inr (u, pm\<lparr>pm_stylesLink := Some v\<rparr>, True))))"

definition styles_step :: "ChekinHostSDKConfig \<Rightarrow> builder \<Rightarrow> error + builder" where
  "styles_step config b =
     (case b of (u, pm, limited) \<Rightarrow>
        (case styles config of
           None \<Rightarrow> Inr b
         | Some v \<Rightarrow>
             if v = [] then Inr b
             else
               (case encodeURIComponent v of
                  Inl e \<Rightarrow> Inl e
                | Inr encodedStyles \<Rightarrow>
                    if length encodedStyles < 500
                    then Inr (searchParams_set (js ''styles'') encodedStyles u, pm, limited)
                    else Inr (u, pm\<lparr>pm_styles := Some v\<rparr>, True))))"

text \<open>Lines 34 to 80 of the source: the address with every inlined parameter, the overflow
  payload collected so far and the flag.\<close>

definition build_url :: "url_parser \<Rightarrow> ChekinHostSDKConfig \<Rightarrow> error + builder" where
  "build_url URL_new config =
     (case URL_new (resolve_base config) of
        None \<Rightarrow> Inl TypeError
      | Some u0 \<Rightarrow>
          (case stylesLink_step config (add_essential config u0, empty_overflow, False) of
             Inl e \<Rightarrow> Inl e
           | Inr b \<Rightarrow> styles_step config b))"

text \<open>Lines 85 and 86: the base address parsed again, with \<open>apiKey\<close> as the only parameter set.\<close>

definition minimal_url :: "url_parser \<Rightarrow> ChekinHostSDKConfig \<Rightarrow> URL option" where
  "minimal_url URL_new config =
     map_option (searchParams_set (js ''apiKey'') (apiKey config)) (URL_new (resolve_base config))"

definition formatChekinUrl :: "url_parser \<Rightarrow> ChekinHostSDKConfig \<Rightarrow> error + UrlConfigResult" where
  "formatChekinUrl URL_new config =
     (case build_url URL_new config of
        Inl e \<Rightarrow> Inl e
      | Inr (u, pm, limited) \<Rightarrow>
          (let finalUrl = URL_toString u
           in if length finalUrl > URL_LENGTH_LIMITS_SAFE_LIMIT then
                (case minimal_url URL_new config of
                   None \<Rightarrow> Inl TypeError
                 | Some minimalUrl \<Rightarrow>
                     Inr \<lparr>url = URL_toString minimalUrl,
                          postMessageConfig =
                            Some (pm\<lparr>pm_defaultLanguage := Some (defaultLanguage config)\<rparr>),
                          isLengthLimited = True\<rparr>)
              else
                Inr \<lparr>url = finalUrl,
                     postMessageConfig = (if length (Object_keys pm) > 0 then Some pm else None),
                     isLengthLimited = limited\<rparr>))"

subsection \<open>The serializer's decisions, named\<close>

text \<open>
  A styling field is \<^emph>\<open>deferred\<close> when it is set, not empty, and its encoding has 500 code
  units or more; it is \<^emph>\<open>inlined\<close>, as its encoding, when it is set, not empty, and the
  encoding is shorter than that.
\<close>

definition deferred :: "jsstring option \<Rightarrow> bool" where
  "deferred field =
     (case field of
        None \<Rightarrow> False
      | Some v \<Rightarrow> v \<noteq> [] \<and> (case encodeURIComponent v of Inl _ \<Rightarrow> False | Inr e \<Rightarrow> 500 \<le> length e))"

definition inlined :: "jsstring option \<Rightarrow> jsstring option" where
  "inlined field =
     (case field of
        None \<Rightarrow> None
      | Some v \<Rightarrow>
          if v = [] then None
          else (case encodeURIComponent v of
                  Inl _ \<Rightarrow> None
                | Inr e \<Rightarrow> if length e < 500 then Some e else None))"

text \<open>The safe-ceiling fallback is taken when the address built so far is longer than 2000.\<close>

definition fallback :: "url_parser \<Rightarrow> ChekinHostSDKConfig \<Rightarrow> bool" where
  "fallback URL_new config =
     (case build_url URL_new config of
        Inl _ \<Rightarrow> False
      | Inr (u, _, _) \<Rightarrow> length (URL_toString u) > URL_LENGTH_LIMITS_SAFE_LIMIT)"

text \<open>Setting an optional query parameter.\<close>

definition set_opt :: "string \<Rightarrow> jsstring option \<Rightarrow> URL \<Rightarrow> URL" where
  "set_opt k v u = (case v of None \<Rightarrow> u | Some e \<Rightarrow> searchParams_set (js k) e u)"

section \<open>The channel protocol engine (\<open>ChekinCommunicator\<close>)\<close>

subsection \<open>Values, messages, listeners\<close>

text \<open>
  A message payload is a structured-clone value; numbers are only passed through.
\<close>

datatype jsval =
  JUndefined | JNull | JBool bool | JNum int | JStr jsstring | JObj "(jsstring \<times> jsval) list"

fun truthy :: "jsval \<Rightarrow> bool" where
  "truthy JUndefined = False"
| "truthy JNull = False"
| "truthy (JBool b) = b"
| "truthy (JNum n) = (n \<noteq> 0)"
| "truthy (JStr s) = (s \<noteq> [])"
| "truthy (JObj ps) = True"

text \<open>\<open>payload?.key\<close> for the keys \<open>hash\<close> and \<open>fullUrl\<close>, which no primitive has.\<close>

fun opt_get :: "jsval \<Rightarrow> jsstring \<Rightarrow> jsval" where
  "opt_get (JObj ps) k = (case map_of ps k of None \<Rightarrow> JUndefined | Some v \<Rightarrow> v)"
| "opt_get _ k = JUndefined"

definition js_or :: "jsval \<Rightarrow> jsval \<Rightarrow> jsval" where
  "js_or a b = (if truthy a then a else b)"

record ChekinMessage =
  m_type :: jsstring
  m_payload :: jsval

text \<open>A message event: the window it came from (\<open>None\<close> is \<open>null\<close>) and its data.\<close>

record MessageEvent =
  ev_source :: "nat option"
  ev_data :: ChekinMessage

text \<open>
  A listener is a function object of the host page. It has an identity, by which
  \<open>indexOf\<close> finds it, and a body. Run on a payload and the host's own state \<open>'w\<close>, the
  body gives the value it throws (if it throws), the new host state, and the calls it made
  back into the Communicator while it ran, in order. Of the public methods a body may
  call, the embedding covers those that change the listener registry: \<open>on\<close>, \<open>off\<close> (the
  function passed is given by its identity) and \<open>destroy\<close>.
\<close>

datatype 'w listener =
  Listener (l_id: nat) (l_call: "jsval \<Rightarrow> 'w \<Rightarrow> jsval option \<times> 'w \<times> 'w call list")
and 'w call =
  CallOn jsstring "'w listener" | CallOff jsstring nat | CallDestroy

subsection \<open>The logging sink\<close>

text \<open>
  The Communicator hands every log record to a \<open>ChekinLogger\<close>. The embedding keeps the
  sequence of those calls: level, message, data and context. What the logger then does
  with a record (drop it when disabled, buffer it, print it) lies behind this interface.
\<close>

datatype log_level = DEBUG | INFO | WARN | ERROR

record log_call =
  lg_level :: log_level
  lg_message :: jsstring
  lg_data :: jsval
  lg_context :: jsstring

subsection \<open>State\<close>

datatype handler = HandleMessage | HandleParentHashChange

text \<open>
  One record holds the Communicator's private fields, the parts of the platform it acts
  on, and the host's state.
  \<^item> \<open>contentWindow\<close> is \<open>this.iframe.contentWindow\<close> (\<open>None\<close> for a detached frame).
  \<^item> \<open>location_hash\<close> is what \<open>window.location.hash\<close> returns.
  \<^item> \<open>window_listeners\<close> are the registrations of \<open>window.addEventListener\<close>: event
    name, identity of the function object, and the method that function object is bound to.
  \<^item> \<open>next_function\<close> is the identity the next \<open>bind\<close> call gives to the function object
    it creates.
  \<^item> \<open>posted\<close> are the messages posted to the iframe's window, oldest first.
  \<^item> \<open>invoked\<close> records each listener invocation: the listener's identity and its argument.
  \<^item> \<open>eventListeners\<close> is the \<open>Map\<close> from event types to arrays. An array is an object:
    the map holds its address, \<open>arrays\<close> holds its content, and \<open>next_array\<close> is the
    address the next \<open>[]\<close> gets. \<open>push\<close> and \<open>splice\<close> change the content in place.
\<close>

record 'w state =
  contentWindow :: "nat option"
  eventListeners :: "jsstring \<rightharpoonup> nat"
  arrays :: "nat \<Rightarrow> 'w listener list"
  next_array :: nat
  config :: ChekinHostSDKConfig
  logger :: "log_call list"
  currentRoute :: jsstring
  routeSyncEnabled :: bool
  hashPrefix :: jsstring
  location_hash :: jsstring
  has_replaceState :: bool
  window_listeners :: "(string \<times> nat \<times> handler) list"
  next_function :: nat
  posted :: "ChekinMessage list"
  host :: 'w
  invoked :: "(nat \<times> jsval) list"

type_synonym 'w outcome = "error option \<times> 'w state"

subsection \<open>Logger calls\<close>

definition logger_log :: "log_level \<Rightarrow> jsstring \<Rightarrow> jsval \<Rightarrow> 'w state \<Rightarrow> 'w state" where
  "logger_log lvl msg d s =
     s\<lparr>logger := logger s @
          [\<lparr>lg_level = lvl, lg_message = msg, lg_data = d, lg_context = js ''COMMUNICATION''\<rparr>]\<rparr>"

definition logCommunicationEvent :: "jsstring \<Rightarrow> jsval \<Rightarrow> 'w state \<Rightarrow> 'w state" where
  "logCommunicationEvent eventType payload =
     logger_log DEBUG (js ''Communication event: '' @ eventType) payload"

subsection \<open>Function objects and window listeners\<close>

text \<open>
  \<open>f.bind(this)\<close> creates a new function object at every call. \<open>addEventListener\<close> adds a
  registration unless the same function object is already registered for the event;
  \<open>removeEventListener\<close> removes the registration of exactly that function object.
\<close>

definition bind :: "'w state \<Rightarrow> nat \<times> 'w state" where
  "bind s = (next_function s, s\<lparr>next_function := Suc (next_function s)\<rparr>)"

definition addEventListener :: "string \<Rightarrow> nat \<Rightarrow> handler \<Rightarrow> 'w state \<Rightarrow> 'w state" where
  "addEventListener ev f h s =
     (if (ev, f) \<in> (\<lambda>(e, g, _). (e, g)) ` set (window_listeners s) then s
      else s\<lparr>window_listeners := window_listeners s @ [(ev, f, h)]\<rparr>)"

definition removeEventListener :: "string \<Rightarrow> nat \<Rightarrow> 'w state \<Rightarrow> 'w state" where
  "removeEventListener ev f s =
     s\<lparr>window_listeners := filter (\<lambda>(e, g, _). \<not> (e = ev \<and> g = f)) (window_listeners s)\<rparr>"

subsection \<open>Route codec\<close>

text \<open>\<open>route.startsWith('#') ? route : `#${route}`\<close>, written three times in the source.\<close>

definition hashRoute_of :: "jsstring \<Rightarrow> jsstring" where
  "hashRoute_of route = (if startsWith route CHR ''#'' then route else cu CHR ''#'' # route)"

text \<open>
  \<open>hash.match(new RegExp(`^${prefix}=(.+)`))\<close>, capture group 1. A dot matches any code
  unit except the four line terminators, and the group is greedy. The definition reads
  the prefix literally: it is the pattern's meaning for a prefix without regular-expression
  metacharacters (\<open>plain_prefix\<close>), such as the default \<open>chekin\<close>.
\<close>

definition line_terminator :: "16 word \<Rightarrow> bool" where
  "line_terminator u \<longleftrightarrow> u = 0x0A \<or> u = 0x0D \<or> u = 0x2028 \<or> u = 0x2029"

definition plain_prefix :: "jsstring \<Rightarrow> bool" where
  "plain_prefix p \<longleftrightarrow> (\<forall>u \<in> set p. is_alnum u \<or> u = cu CHR ''_'' \<or> u = cu CHR ''-'')"

definition match_route :: "jsstring \<Rightarrow> jsstring \<Rightarrow> jsstring option" where
  "match_route prefix hash =
     (let pat = prefix @ [cu CHR ''='']
      in if take (length pat) hash = pat then
           (let captured = takeWhile (\<lambda>u. \<not> line_terminator u) (drop (length pat) hash)
            in if captured = [] then None else Some captured)
         else None)"

text \<open>
  Lines 135 to 139 (and 228 to 232): from the window's hash to the decoded route.
  \<open>Inr None\<close> is a hash that does not match.
\<close>

definition decode_hash :: "jsstring \<Rightarrow> jsstring \<Rightarrow> error + jsstring option" where
  "decode_hash prefix location =
     (let hash = drop 1 location
      in case match_route prefix hash of
           None \<Rightarrow> Inr None
         | Some captured \<Rightarrow>
             (case decodeURIComponent captured of Inl e \<Rightarrow> Inl e | Inr route \<Rightarrow> Inr (Some route)))"

text \<open>Lines 175 to 177: from a route to the new hash.\<close>

definition encode_hash :: "jsstring \<Rightarrow> jsstring \<Rightarrow> error + jsstring" where
  "encode_hash prefix route =
     (let cleanRoute = (if startsWith route CHR ''#'' then drop 1 route else route)
      in case encodeURIComponent cleanRoute of
           Inl e \<Rightarrow> Inl e
         | Inr encodedRoute \<Rightarrow> Inr (cu CHR ''#'' # prefix @ cu CHR ''='' # encodedRoute))"

subsection \<open>Methods\<close>

definition send :: "ChekinMessage \<Rightarrow> 'w state \<Rightarrow> 'w state" where
  "send message s =
     (if contentWindow s \<noteq> None then
        logger_log DEBUG (js ''Message sent to iframe: '' @ m_type message) (m_payload message)
          (s\<lparr>posted := posted s @ [message]\<rparr>)
      else
        logger_log WARN (js ''Cannot send message: iframe contentWindow is not available'')
          (JObj [(js ''messageType'', JStr (m_type message))]) s)"

definition enableRouteSync :: "jsstring option \<Rightarrow> 'w state \<Rightarrow> 'w state" where
  "enableRouteSync options_hashPrefix s =
     (let s1 = s\<lparr>routeSyncEnabled := True,
                 hashPrefix := or_default options_hashPrefix (js ''chekin'')\<rparr>;
          (f, s2) = bind s1;
          s3 = addEventListener ''hashchange'' f HandleParentHashChange s2
      in logger_log DEBUG (js ''Route synchronization enabled'')
           (JObj [(js ''hashPrefix'', JStr (hashPrefix s3))]) s3)"

definition disableRouteSync :: "'w state \<Rightarrow> 'w state" where
  "disableRouteSync s =
     (let s1 = s\<lparr>routeSyncEnabled := False\<rparr>;
          (f, s2) = bind s1;
          s3 = removeEventListener ''hashchange'' f s2
      in logger_log DEBUG (js ''Route synchronization disabled'') JUndefined s3)"

definition ChekinCommunicator :: "nat option \<Rightarrow> ChekinHostSDKConfig \<Rightarrow> 'w state \<Rightarrow> 'w state" where
  "ChekinCommunicator iframe_window cfg env =
     (let s0 = env\<lparr>contentWindow := iframe_window, eventListeners := Map.empty, config := cfg,
                  currentRoute := js ''#/'', routeSyncEnabled := True,
                  hashPrefix := js ''chekin''\<rparr>;
          (f, s1) = bind s0;
          s2 = addEventListener ''message'' f HandleMessage s1
      in if routeSync cfg \<noteq> Some False then
           logger_log DEBUG (js ''ChekinCommunicator initialized with automatic route sync'')
             JUndefined (enableRouteSync (Some (js ''chekin'')) s2)
         else
           logger_log DEBUG (js ''ChekinCommunicator initialized with route sync disabled'')
             JUndefined (s2\<lparr>routeSyncEnabled := False\<rparr>))"


text \<open>\<open>on\<close>: a type without an entry gets a new empty array; the callback is pushed.\<close>

definition "on" :: "jsstring \<Rightarrow> 'w listener \<Rightarrow> 'w state \<Rightarrow> 'w state" where
  "on ty callback s =
     (let (a, s1) = (case eventListeners s ty of
                       Some a \<Rightarrow> (a, s)
                     | None \<Rightarrow>
                         (next_array s,
                          s\<lparr>eventListeners := (eventListeners s)(ty \<mapsto> next_array s),
                            arrays := (arrays s)(next_array s := []),
                            next_array := Suc (next_array s)\<rparr>))
      in logger_log DEBUG (js ''Event listener added for: '' @ ty) JUndefined
           (s1\<lparr>arrays := (arrays s1)(a := arrays s1 a @ [callback])\<rparr>))"

text \<open>\<open>indexOf\<close> followed by \<open>splice(index, 1)\<close>: the first occurrence goes.\<close>

fun remove_first :: "nat \<Rightarrow> 'w listener list \<Rightarrow> 'w listener list" where
  "remove_first i [] = []"
| "remove_first i (l # ls) = (if l_id l = i then ls else l # remove_first i ls)"

text \<open>The body of \<open>off\<close>, for the identity of the callback passed.\<close>

definition off_identity :: "jsstring \<Rightarrow> nat \<Rightarrow> 'w state \<Rightarrow> 'w state" where
  "off_identity ty i s =
     (case eventListeners s ty of
        None \<Rightarrow> s
      | Some a \<Rightarrow>
          if i \<in> l_id ` set (arrays s a) then
            logger_log DEBUG (js ''Event listener removed for: '' @ ty) JUndefined
              (s\<lparr>arrays := (arrays s)(a := remove_first i (arrays s a))\<rparr>)
          else s)"

definition off :: "jsstring \<Rightarrow> 'w listener \<Rightarrow> 'w state \<Rightarrow> 'w state" where
  "off ty callback s = off_identity ty (l_id callback) s"

definition syncRouteToIframe :: "jsstring \<Rightarrow> 'w state \<Rightarrow> 'w state" where
  "syncRouteToIframe route s =
     (let hashRoute = hashRoute_of route;
          s1 = s\<lparr>currentRoute := hashRoute\<rparr>;
          s2 = send \<lparr>m_type = js ''route-sync'',
                     m_payload = JObj [(js ''route'', JStr hashRoute)]\<rparr> s1
      in logger_log DEBUG (js ''Route synchronized from parent to iframe'')
           (JObj [(js ''route'', JStr hashRoute)]) s2)"

text \<open>
  Both branches of \<open>updateParentHash\<close> leave the same hash on the window; they differ in
  whether the platform will report the change by a \<open>hashchange\<close> event.
\<close>

definition updateParentHash :: "jsstring \<Rightarrow> 'w state \<Rightarrow> 'w outcome" where
  "updateParentHash route s =
     (case encode_hash (hashPrefix s) route of
        Inl e \<Rightarrow> (Some e, s)
      | Inr newHash \<Rightarrow>
          if has_replaceState s then (None, s\<lparr>location_hash := newHash\<rparr>)
          else (None, s\<lparr>location_hash := newHash\<rparr>))"

definition handleParentHashChange :: "'w state \<Rightarrow> 'w outcome" where
  "handleParentHashChange s =
     (if \<not> routeSyncEnabled s then (None, s)
      else
        (case decode_hash (hashPrefix s) (location_hash s) of
           Inl e \<Rightarrow> (Some e, s)
         | Inr None \<Rightarrow> (None, s)
         | Inr (Some route) \<Rightarrow>
             if route \<noteq> currentRoute s then (None, syncRouteToIframe route s) else (None, s)))"

text \<open>The argument is whatever the payload held: \<open>startsWith\<close> exists on strings only.\<close>

definition handleIframeRouteChange :: "jsval \<Rightarrow> 'w state \<Rightarrow> 'w outcome" where
  "handleIframeRouteChange route s =
     (case route of
        JStr r \<Rightarrow>
          (let hashRoute = hashRoute_of r
           in if hashRoute \<noteq> currentRoute s then
                (case updateParentHash hashRoute (s\<lparr>currentRoute := hashRoute\<rparr>) of
                   (Some e, s') \<Rightarrow> (Some e, s')
                 | (None, s') \<Rightarrow>
                     (None, logger_log DEBUG (js ''Route synchronized from iframe to parent'')
                              (JObj [(js ''route'', JStr hashRoute)]) s'))
              else (None, s))
      | _ \<Rightarrow> (Some TypeError, s))"

definition navigateToRoute :: "jsstring \<Rightarrow> 'w state \<Rightarrow> 'w outcome" where
  "navigateToRoute route s =
     (if routeSyncEnabled s then
        (case updateParentHash route (syncRouteToIframe route s) of
           (Some e, s') \<Rightarrow> (Some e, s')
         | (None, s') \<Rightarrow>
             (None, logger_log DEBUG (js ''Programmatic navigation initiated'')
                      (JObj [(js ''route'', JStr route)]) s'))
      else
        (None, logger_log DEBUG (js ''Programmatic navigation initiated'')
                 (JObj [(js ''route'', JStr route)])
                 (send \<lparr>m_type = js ''navigate'',
                        m_payload = JObj [(js ''path'', JStr route)]\<rparr> s)))"

definition sendInitialRoute :: "'w state \<Rightarrow> 'w outcome" where
  "sendInitialRoute s =
     (case decode_hash (hashPrefix s) (location_hash s) of
        Inl e \<Rightarrow> (Some e, s)
      | Inr None \<Rightarrow> (None, s)
      | Inr (Some route) \<Rightarrow>
          (let hashRoute = hashRoute_of route;
               s1 = s\<lparr>currentRoute := hashRoute\<rparr>;
               s2 = send \<lparr>m_type = js ''chekin:init-route'',
                          m_payload = JObj [(js ''route'', JStr hashRoute)]\<rparr> s1
           in (None, logger_log DEBUG (js ''Initial route sent to iframe'')
                       (JObj [(js ''route'', JStr hashRoute)]) s2)))"

definition destroy :: "'w state \<Rightarrow> 'w state" where
  "destroy s =
     (let (f, s1) = bind s;
          s2 = removeEventListener ''message'' f s1;
          s3 = (if routeSyncEnabled s2 then
                  (let (g, s') = bind s2 in removeEventListener ''hashchange'' g s')
                else s2);
          s4 = s3\<lparr>eventListeners := Map.empty\<rparr>
      in logger_log DEBUG (js ''ChekinCommunicator destroyed'') JUndefined s4)"

text \<open>A call made by a listener body.\<close>

fun apply_call :: "'w call \<Rightarrow> 'w state \<Rightarrow> 'w state" where
  "apply_call (CallOn ty l) s = on ty l s"
| "apply_call (CallOff ty i) s = off_identity ty i s"
| "apply_call CallDestroy s = destroy s"


definition invoke :: "jsstring \<Rightarrow> jsval \<Rightarrow> 'w listener \<Rightarrow> 'w state \<Rightarrow> 'w state" where
  "invoke ty payload l s =
     (case l_call l payload (host s) of
        (thrown, w, calls) \<Rightarrow>
          (let s1 = fold apply_call calls
                      (s\<lparr>host := w, invoked := invoked s @ [(l_id l, payload)]\<rparr>)
           in case thrown of
                None \<Rightarrow> s1
              | Some err \<Rightarrow>
                  logger_log ERROR (js ''Error in Chekin event listener'')
                    (JObj [(js ''error'', err), (js ''eventType'', JStr ty)]) s1))"

fun forEach_from :: "jsstring \<Rightarrow> jsval \<Rightarrow> nat \<Rightarrow> nat \<Rightarrow> nat \<Rightarrow> 'w state \<Rightarrow> 'w state" where
  "forEach_from ty payload a k 0 s = s"
| "forEach_from ty payload a k (Suc n) s =
     (if k < length (arrays s a)
      then forEach_from ty payload a (Suc k) n (invoke ty payload (arrays s a ! k) s)
      else forEach_from ty payload a (Suc k) n s)"

text \<open>
  \<open>const listeners = this.eventListeners.get(type) || []\<close> followed by the loop; without
  an entry the loop runs over a new empty array.
\<close>

definition dispatch :: "jsstring \<Rightarrow> jsval \<Rightarrow> 'w state \<Rightarrow> 'w state" where
  "dispatch ty payload s =
     (case eventListeners s ty of
        None \<Rightarrow> s
      | Some a \<Rightarrow> forEach_from ty payload a 0 (length (arrays s a)) s)"

definition route_step :: "ChekinMessage \<Rightarrow> 'w state \<Rightarrow> 'w outcome" where
  "route_step d s =
     (if m_type d = js ''chekin:route-changed'' \<and> routeSyncEnabled s then
        handleIframeRouteChange
          (js_or (opt_get (m_payload d) (js ''hash'')) (opt_get (m_payload d) (js ''fullUrl''))) s
      else (None, s))"

definition handleMessage :: "MessageEvent \<Rightarrow> 'w state \<Rightarrow> 'w outcome" where
  "handleMessage event s =
     (if ev_source event \<noteq> contentWindow s then (None, s)
      else
        (let d = ev_data event;
             s1 = logCommunicationEvent (m_type d) (m_payload d) s
         in case route_step d s1 of
              (Some e, s2) \<Rightarrow> (Some e, s2)
            | (None, s2) \<Rightarrow>
                (None, dispatch (m_type d) (m_payload d) s2)))"

text \<open>
  The page's event loop delivering a sequence of message events: an exception that
  escapes \<open>handleMessage\<close> is reported and the next event is delivered to the state as
  the handler left it. The result lists the escaped exceptions.
\<close>

fun deliver :: "MessageEvent list \<Rightarrow> 'w state \<Rightarrow> error list \<times> 'w state" where
  "deliver [] s = ([], s)"
| "deliver (e # es) s =
     (case handleMessage e s of
        (r, s1) \<Rightarrow>
          (case deliver es s1 of
             (errs, s2) \<Rightarrow> ((case r of None \<Rightarrow> [] | Some x \<Rightarrow> [x]) @ errs, s2)))"



subsection \<open>Example configurations and pages\<close>

text \<open>A configuration that sets the API key and nothing else.\<close>

definition minimal_config :: "jsstring \<Rightarrow> ChekinHostSDKConfig" where
  "minimal_config k =
     \<lparr>apiKey = k, baseUrl = None, version = None, defaultLanguage = None, styles = None,
      stylesLink = None, autoHeight = None, enableLogging = None, routeSync = None\<rparr>"

text \<open>\<open>'x'.repeat(n)\<close>.\<close>

definition letters :: "nat \<Rightarrow> char \<Rightarrow> jsstring" where
  "letters n c = replicate n (cu c)"

text \<open>The default CDN address, for a configuration without \<open>baseUrl\<close> and \<open>version\<close>.\<close>

definition cdn_latest :: jsstring where
  "cdn_latest = js ''https://cdn.chekin.com/inbox-sdk/latest/index.html''"

text \<open>
  Configurations for the serializer: styling values exactly at the threshold (an encoded
  stylesheet address of 499 code units, encoded styles of 500); empty styling values; an
  API key of 2001 characters; a language of 2000 characters; a language of 2000 characters
  with short styles and a stylesheet address of 500 characters; styles of 600 characters.
\<close>

definition boundary_config :: ChekinHostSDKConfig where
  "boundary_config = (minimal_config (js ''k''))
     \<lparr>styles := Some (letters 500 CHR ''c''), stylesLink := Some (letters 499 CHR ''b'')\<rparr>"

definition empty_styles_config :: ChekinHostSDKConfig where
  "empty_styles_config = (minimal_config (js ''k''))\<lparr>styles := Some [], stylesLink := Some []\<rparr>"

definition long_key_config :: ChekinHostSDKConfig where
  "long_key_config = minimal_config (letters 2001 CHR ''a'')"

definition long_lang_config :: ChekinHostSDKConfig where
  "long_lang_config = (minimal_config (js ''k''))\<lparr>defaultLanguage := Some (letters 2000 CHR ''a'')\<rparr>"

definition lossy_config :: ChekinHostSDKConfig where
  "lossy_config = (minimal_config (js ''k''))
     \<lparr>defaultLanguage := Some (letters 2000 CHR ''a''), styles := Some (js ''a''),
      stylesLink := Some (letters 500 CHR ''b'')\<rparr>"

definition long_styles_config :: ChekinHostSDKConfig where
  "long_styles_config = (minimal_config (js ''k''))\<lparr>styles := Some (letters 600 CHR ''x'')\<rparr>"

text \<open>
  A page on which no Communicator has been constructed yet: no window listener, no
  function object created, an empty hash, nothing posted, nothing logged. The constructor
  overwrites the Communicator's own fields.
\<close>

definition fresh_page :: "'w \<Rightarrow> 'w state" where
  "fresh_page w =
     \<lparr>contentWindow = None, eventListeners = Map.empty, arrays = (\<lambda>a. []), next_array = 0,
      config = minimal_config [],
      logger = [], currentRoute = [], routeSyncEnabled = False, hashPrefix = [],
      location_hash = [], has_replaceState = True, window_listeners = [], next_function = 0,
      posted = [], host = w, invoked = []\<rparr>"

text \<open>A Communicator on a fresh page, for the iframe whose window is number 1.\<close>

definition page1 :: "nat state" where
  "page1 = ChekinCommunicator (Some 1) (minimal_config (js ''k'')) (fresh_page 0)"

definition route_changed :: "jsstring \<Rightarrow> MessageEvent" where
  "route_changed h =
     \<lparr>ev_source = Some 1,
      ev_data = \<lparr>m_type = js ''chekin:route-changed'',
                 m_payload = JObj [(js ''hash'', JStr h)]\<rparr>\<rparr>"

text \<open>The same page after the iframe has reported the route \<open>#/foo\<close>.\<close>

definition page2 :: "nat state" where
  "page2 = snd (handleMessage (route_changed (js ''#/foo'')) page1)"




definition ready_event :: "nat option \<Rightarrow> MessageEvent" where
  "ready_event src = \<lparr>ev_source = src, ev_data = \<lparr>m_type = js ''chekin:ready'', m_payload = JNull\<rparr>\<rparr>"



section \<open>Properties of the URI codecs\<close>

subsection \<open>Escapes and UTF-8\<close>

lemma unat_small: "n < 65536 \<Longrightarrow> unat (of_nat n :: 16 word) = n"
  by (simp add: unat_of_nat)

lemma hex_value_digit:
  assumes "n < 16"
  shows "hex_value (hex_digit n) = Some n"
proof -
  from assms have "n \<in> {0, 1, 2, 3, 4, 5, 6, 7, 8, 9, 10, 11, 12, 13, 14, 15}"
    by simp arith
  then show ?thesis
    by (elim insertE emptyE) (simp_all add: hex_value_def hex_digit_def)
qed

lemma read_escape_pct:
  assumes "b < 256"
  shows "read_escape (pct_octet b @ rest) = Some (b, rest)"
proof -
  from assms have "b div 16 < 16" "b mod 16 < 16" by simp_all
  then show ?thesis
    by (simp add: pct_octet_def hex_value_digit)
qed

lemma read_escapes_pct:
  "\<forall>b \<in> set bs. b < 256 \<Longrightarrow>
     read_escapes (length bs) (pct_octets bs @ rest) = Some (bs, rest)"
proof (induction bs)
  case Nil
  show ?case by (simp add: pct_octets_def)
next
  case (Cons b bs)
  then have "read_escape (pct_octet b @ (pct_octets bs @ rest)) = Some (b, pct_octets bs @ rest)"
    by (simp add: read_escape_pct)
  with Cons show ?case
    by (simp add: pct_octets_def)
qed

lemma utf8_two:
  assumes "0x80 \<le> cp" "cp < 0x800"
  shows "utf8_octets cp = [0xC0 + cp div 64, 0x80 + cp mod 64]"
    and "utf8_length (0xC0 + cp div 64) = Some 2"
    and "utf8_code_point [0xC0 + cp div 64, 0x80 + cp mod 64] = Some cp"
    and "0xC0 + cp div 64 < 256" "0x80 + cp mod 64 < 256" "\<not> 0xC0 + cp div 64 < 0x80"
proof -
  from assms have d: "cp div 64 < 32" by simp
  show "utf8_octets cp = [0xC0 + cp div 64, 0x80 + cp mod 64]"
    using assms by (simp add: utf8_octets_def)
  show "utf8_length (0xC0 + cp div 64) = Some 2"
    using d by (simp add: utf8_length_def)
  show "utf8_code_point [0xC0 + cp div 64, 0x80 + cp mod 64] = Some cp"
    using assms by (simp add: is_cont_def)
  show "0xC0 + cp div 64 < 256" "0x80 + cp mod 64 < 256" "\<not> 0xC0 + cp div 64 < 0x80"
    using d by simp_all
qed

lemma utf8_three:
  assumes "0x800 \<le> cp" "cp < 0x10000" "scalar cp"
  shows "utf8_octets cp = [0xE0 + cp div 4096, 0x80 + (cp div 64) mod 64, 0x80 + cp mod 64]"
    and "utf8_length (0xE0 + cp div 4096) = Some 3"
    and "utf8_code_point [0xE0 + cp div 4096, 0x80 + (cp div 64) mod 64, 0x80 + cp mod 64]
           = Some cp"
    and "0xE0 + cp div 4096 < 256" "0x80 + (cp div 64) mod 64 < 256" "0x80 + cp mod 64 < 256"
      "\<not> 0xE0 + cp div 4096 < 0x80"
proof -
  from assms have d: "cp div 4096 < 16" by simp
  have e1: "cp div 64 * 64 + cp mod 64 = cp"
    by simp
  have "cp div 4096 = cp div 64 div 64"
    by (simp add: div_mult2_eq)
  then have e2: "cp div 4096 * 64 + cp div 64 mod 64 = cp div 64"
    by simp
  from e1 e2 have e: "cp div 4096 * 4096 + cp div 64 mod 64 * 64 + cp mod 64 = cp"
    by linarith
  show "utf8_octets cp = [0xE0 + cp div 4096, 0x80 + (cp div 64) mod 64, 0x80 + cp mod 64]"
    using assms by (simp add: utf8_octets_def)
  show "utf8_length (0xE0 + cp div 4096) = Some 3"
    using d by (simp add: utf8_length_def)
  show "utf8_code_point [0xE0 + cp div 4096, 0x80 + (cp div 64) mod 64, 0x80 + cp mod 64]
           = Some cp"
    using assms e by (simp add: is_cont_def scalar_def)
  show "0xE0 + cp div 4096 < 256" "0x80 + (cp div 64) mod 64 < 256" "0x80 + cp mod 64 < 256"
      "\<not> 0xE0 + cp div 4096 < 0x80"
    using d by simp_all
qed

lemma utf8_four:
  assumes "0x10000 \<le> cp" "cp < 0x110000"
  shows "utf8_octets cp =
           [0xF0 + cp div 262144, 0x80 + (cp div 4096) mod 64, 0x80 + (cp div 64) mod 64,
            0x80 + cp mod 64]"
    and "utf8_length (0xF0 + cp div 262144) = Some 4"
    and "utf8_code_point
           [0xF0 + cp div 262144, 0x80 + (cp div 4096) mod 64, 0x80 + (cp div 64) mod 64,
            0x80 + cp mod 64] = Some cp"
    and "0xF0 + cp div 262144 < 256" "0x80 + (cp div 4096) mod 64 < 256"
      "0x80 + (cp div 64) mod 64 < 256" "0x80 + cp mod 64 < 256"
      "\<not> 0xF0 + cp div 262144 < 0x80"
proof -
  from assms have d: "cp div 262144 < 5" by simp
  have e1: "cp div 64 * 64 + cp mod 64 = cp"
    by simp
  have "cp div 4096 = cp div 64 div 64"
    by (simp add: div_mult2_eq)
  then have e2: "cp div 4096 * 64 + cp div 64 mod 64 = cp div 64"
    by simp
  have "cp div 262144 = cp div 4096 div 64"
    by (simp add: div_mult2_eq)
  then have e3: "cp div 262144 * 64 + cp div 4096 mod 64 = cp div 4096"
    by simp
  from e1 e2 e3
  have e: "cp div 262144 * 262144 + cp div 4096 mod 64 * 4096 + cp div 64 mod 64 * 64
             + cp mod 64 = cp"
    by linarith
  show "utf8_octets cp =
           [0xF0 + cp div 262144, 0x80 + (cp div 4096) mod 64, 0x80 + (cp div 64) mod 64,
            0x80 + cp mod 64]"
    using assms by (simp add: utf8_octets_def)
  show "utf8_length (0xF0 + cp div 262144) = Some 4"
    using d by (simp add: utf8_length_def)
  show "utf8_code_point
           [0xF0 + cp div 262144, 0x80 + (cp div 4096) mod 64, 0x80 + (cp div 64) mod 64,
            0x80 + cp mod 64] = Some cp"
    using assms e by (simp add: is_cont_def)
  show "0xF0 + cp div 262144 < 256" "0x80 + (cp div 4096) mod 64 < 256"
      "0x80 + (cp div 64) mod 64 < 256" "0x80 + cp mod 64 < 256"
      "\<not> 0xF0 + cp div 262144 < 0x80"
    using d by simp_all
qed

subsection \<open>Decoding what was encoded\<close>

lemma pct_octets_Cons:
  "pct_octets (b # bs) @ r = pct_octet b @ (pct_octets bs @ r)"
  by (simp add: pct_octets_def)

lemma pct_octets_percent:
  "pct_octets (b # bs) @ r = percent # hex_digit (b div 16) # hex_digit (b mod 16) # pct_octets bs @ r"
  by (simp add: pct_octets_def pct_octet_def)

lemma decode_escape_single:
  assumes "b < 0x80"
  shows "decode_escape (pct_octets [b] @ rest) = Some ([of_nat b], rest)"
proof -
  from assms have "b < 256" by simp
  then have "read_escape (pct_octet b @ rest) = Some (b, rest)"
    by (rule read_escape_pct)
  with assms show ?thesis
    by (simp add: decode_escape_def pct_octets_def)
qed

lemma decode_escape_multi:
  assumes "\<not> b0 < 0x80" "b0 < 256" "\<forall>b \<in> set bs. b < 256"
    and "utf8_length b0 = Some (Suc (length bs))"
    and "utf8_code_point (b0 # bs) = Some cp"
  shows "decode_escape (pct_octets (b0 # bs) @ rest) = Some (utf16_units cp, rest)"
proof -
  have 1: "read_escape (pct_octet b0 @ (pct_octets bs @ rest)) = Some (b0, pct_octets bs @ rest)"
    using assms(2) by (rule read_escape_pct)
  have 2: "read_escapes (length bs) (pct_octets bs @ rest) = Some (bs, rest)"
    using assms(3) by (rule read_escapes_pct)
  show ?thesis
    unfolding decode_escape_def pct_octets_Cons
    by (simp add: 1 2 assms(1,4,5))
qed

lemma decode_escape_cp:
  assumes "scalar cp"
  shows "decode_escape (pct_octets (utf8_octets cp) @ rest) = Some (utf16_units cp, rest)"
proof -
  consider "cp < 0x80" | "0x80 \<le> cp" "cp < 0x800" | "0x800 \<le> cp" "cp < 0x10000"
    | "0x10000 \<le> cp" "cp < 0x110000"
    using assms unfolding scalar_def by atomize_elim arith
  then show ?thesis
  proof cases
    case 1
    then have "utf8_octets cp = [cp]" and "utf16_units cp = [of_nat cp]"
      by (simp_all add: utf8_octets_def utf16_units_def)
    with decode_escape_single [OF 1, of rest] show ?thesis
      by simp
  next
    case 2
    note U = utf8_two [OF 2]
    have "decode_escape (pct_octets ((0xC0 + cp div 64) # [0x80 + cp mod 64]) @ rest)
            = Some (utf16_units cp, rest)"
    proof (rule decode_escape_multi [OF U(6) U(4) _ _ U(3)])
      show "\<forall>b \<in> set [0x80 + cp mod 64]. b < 256"
        using U(5) by simp
      show "utf8_length (0xC0 + cp div 64) = Some (Suc (length [0x80 + cp mod 64]))"
        using U(2) by simp
    qed
    then show ?thesis
      by (simp only: U(1))
  next
    case 3
    note U = utf8_three [OF 3 assms]
    have "decode_escape
            (pct_octets ((0xE0 + cp div 4096) # [0x80 + (cp div 64) mod 64, 0x80 + cp mod 64])
               @ rest)
            = Some (utf16_units cp, rest)"
    proof (rule decode_escape_multi [OF U(7) U(4) _ _ U(3)])
      show "\<forall>b \<in> set [0x80 + (cp div 64) mod 64, 0x80 + cp mod 64]. b < 256"
        using U(5,6) by simp
      show "utf8_length (0xE0 + cp div 4096)
              = Some (Suc (length [0x80 + (cp div 64) mod 64, 0x80 + cp mod 64]))"
        using U(2) by simp
    qed
    then show ?thesis
      by (simp only: U(1))
  next
    case 4
    note U = utf8_four [OF 4]
    have "decode_escape
            (pct_octets ((0xF0 + cp div 262144) #
               [0x80 + (cp div 4096) mod 64, 0x80 + (cp div 64) mod 64, 0x80 + cp mod 64])
               @ rest)
            = Some (utf16_units cp, rest)"
    proof (rule decode_escape_multi [OF U(8) U(4) _ _ U(3)])
      show "\<forall>b \<in> set [0x80 + (cp div 4096) mod 64, 0x80 + (cp div 64) mod 64,
                          0x80 + cp mod 64]. b < 256"
        using U(5,6,7) by simp
      show "utf8_length (0xF0 + cp div 262144)
              = Some (Suc (length [0x80 + (cp div 4096) mod 64, 0x80 + (cp div 64) mod 64,
                                   0x80 + cp mod 64]))"
        using U(2) by simp
    qed
    then show ?thesis
      by (simp only: U(1))
  qed
qed

lemma utf8_octets_Cons: "\<exists>b bs. utf8_octets cp = b # bs"
  by (simp add: utf8_octets_def)

lemma decodeURIComponent_escaped:
  assumes "scalar cp"
  shows "decodeURIComponent (pct_octets (utf8_octets cp) @ r) =
           (case decodeURIComponent r of Inl e \<Rightarrow> Inl e | Inr x \<Rightarrow> Inr (utf16_units cp @ x))"
proof -
  obtain b bs where o: "utf8_octets cp = b # bs"
    using utf8_octets_Cons by blast
  have p: "pct_octets (utf8_octets cp) @ r
             = percent # hex_digit (b div 16) # hex_digit (b mod 16) # pct_octets bs @ r"
    by (simp add: o pct_octets_percent)
  have "decode_escape (percent # hex_digit (b div 16) # hex_digit (b mod 16) # pct_octets bs @ r)
          = Some (utf16_units cp, r)"
    using decode_escape_cp [OF assms, of r] by (simp add: p)
  then show ?thesis
    by (simp add: p)
qed

lemma utf16_bmp: "utf16_units (unat (u :: 16 word)) = [u]"
proof -
  have "unat u < 2 ^ LENGTH(16)" by (rule unsigned_less)
  then show ?thesis by (simp add: utf16_units_def)
qed

lemma scalar_bmp: "\<not> is_lead u \<Longrightarrow> \<not> is_trail u \<Longrightarrow> scalar (unat u)"
proof -
  assume a: "\<not> is_lead u" "\<not> is_trail u"
  have "unat u < 2 ^ LENGTH(16)" by (rule unsigned_less)
  with a show ?thesis
    by (auto simp: scalar_def is_lead_def is_trail_def word_le_nat_alt)
qed

lemma pair_facts:
  assumes "is_lead u" "is_trail v"
  shows "utf16_units (pair_cp u v) = [u, v]" and "scalar (pair_cp u v)"
proof -
  from assms have a: "0xD800 \<le> unat u" "unat u \<le> 0xDBFF" "0xDC00 \<le> unat v" "unat v \<le> 0xDFFF"
    by (simp_all add: is_lead_def is_trail_def word_le_nat_alt)
  define x where "x = unat u - 0xD800"
  define y where "y = unat v - 0xDC00"
  from a have x: "x < 0x400" "unat u = 0xD800 + x" and y: "y < 0x400" "unat v = 0xDC00 + y"
    by (simp_all add: x_def y_def)
  have cp: "pair_cp u v = 0x10000 + x * 0x400 + y"
    by (simp add: pair_cp_def x_def y_def)
  from y have d: "(x * 0x400 + y) div 0x400 = x" "(x * 0x400 + y) mod 0x400 = y"
    by simp_all
  have "(of_nat (0xD800 + x) :: 16 word) = u" "(of_nat (0xDC00 + y) :: 16 word) = v"
    using x(2) [symmetric] y(2) [symmetric] by simp_all
  then show "utf16_units (pair_cp u v) = [u, v]"
    using d by (simp add: utf16_units_def cp add.assoc)
  from x(1) y(1) have "x * 0x400 + y < 0x100000" by simp
  then show "scalar (pair_cp u v)"
    by (simp add: scalar_def cp)
qed

lemma unreserved_not_percent: "uri_unreserved u \<Longrightarrow> u \<noteq> percent"
  by (auto simp: uri_unreserved_def is_alnum_def percent_def js_def cu_def)

text \<open>\<open>decodeURIComponent\<close> undoes \<open>encodeURIComponent\<close> wherever the latter returns.\<close>

lemma decode_encode:
  "encodeURIComponent s = Inr e \<Longrightarrow> decodeURIComponent e = Inr s"
proof (induction s arbitrary: e rule: encodeURIComponent.induct)
  case 1
  then show ?case by simp
next
  case (2 u us)
  show ?case
  proof (cases "uri_unreserved u")
    case True
    with "2.prems" obtain r where r: "encodeURIComponent us = Inr r" "e = u # r"
      by (auto split: sum.splits)
    from "2.IH"(1) [OF True r(1)] True r(2) show ?thesis
      by (simp add: unreserved_not_percent)
  next
    case False
    show ?thesis
    proof (cases "is_lead u")
      case lead: True
      with False "2.prems" obtain v vs r where
        v: "us = v # vs" "is_trail v" "encodeURIComponent vs = Inr r"
          "e = pct_octets (utf8_octets (pair_cp u v)) @ r"
        by (auto split: list.splits if_splits sum.splits)
      from "2.IH"(2) [OF False lead v(1,2,3)] have "decodeURIComponent r = Inr vs" .
      with pair_facts [OF lead v(2)] v show ?thesis
        by (simp add: decodeURIComponent_escaped)
    next
      case nolead: False
      with False "2.prems" obtain r where
        r: "\<not> is_trail u" "encodeURIComponent us = Inr r"
          "e = pct_octets (utf8_octets (unat u)) @ r"
        by (auto split: if_splits sum.splits)
      from "2.IH"(3) [OF False nolead r(1,2)] have "decodeURIComponent r = Inr us" .
      with scalar_bmp [OF nolead r(1)] r show ?thesis
        by (simp add: decodeURIComponent_escaped utf16_bmp)
    qed
  qed
qed

subsection \<open>The shape of an encoded string\<close>

lemma utf8_octets_bytes:
  assumes "scalar cp"
  shows "\<forall>b \<in> set (utf8_octets cp). b < 256"
proof -
  consider "cp < 0x80" | "0x80 \<le> cp" "cp < 0x800" | "0x800 \<le> cp" "cp < 0x10000"
    | "0x10000 \<le> cp" "cp < 0x110000"
    using assms unfolding scalar_def by atomize_elim arith
  then show ?thesis
  proof cases
    case 1
    then show ?thesis by (simp add: utf8_octets_def)
  next
    case 2
    note U = utf8_two [OF 2]
    show ?thesis using U(4,5) by (simp only: U(1)) simp
  next
    case 3
    note U = utf8_three [OF 3 assms]
    show ?thesis using U(4,5,6) by (simp only: U(1)) simp
  next
    case 4
    note U = utf8_four [OF 4]
    show ?thesis using U(4,5,6,7) by (simp only: U(1)) simp
  qed
qed

lemma hex_digit_not_terminator:
  assumes "n < 16"
  shows "\<not> line_terminator (hex_digit n)"
proof -
  from assms have "n \<in> {0, 1, 2, 3, 4, 5, 6, 7, 8, 9, 10, 11, 12, 13, 14, 15}"
    by simp arith
  then show ?thesis
    by (elim insertE emptyE) (simp_all add: line_terminator_def hex_digit_def)
qed

lemma pct_octets_no_terminator:
  "\<forall>b \<in> set bs. b < 256 \<Longrightarrow> \<forall>u \<in> set (pct_octets bs). \<not> line_terminator u"
proof (induction bs)
  case Nil
  show ?case by (simp add: pct_octets_def)
next
  case (Cons b bs)
  from Cons.prems have "b < 256" by simp
  then have "b div 16 < 16" "b mod 16 < 16" by simp_all
  then have "\<forall>u \<in> set (pct_octet b). \<not> line_terminator u"
    by (simp add: pct_octet_def hex_digit_not_terminator)
       (simp add: line_terminator_def percent_def)
  with Cons show ?case
    by (auto simp: pct_octets_def)
qed

lemma unreserved_not_terminator: "uri_unreserved u \<Longrightarrow> \<not> line_terminator u"
  by (auto simp: uri_unreserved_def is_alnum_def line_terminator_def js_def cu_def)

lemma encoded_no_terminator:
  "encodeURIComponent s = Inr e \<Longrightarrow> \<forall>u \<in> set e. \<not> line_terminator u"
proof (induction s arbitrary: e rule: encodeURIComponent.induct)
  case 1
  then show ?case by simp
next
  case (2 u us)
  show ?case
  proof (cases "uri_unreserved u")
    case True
    with "2.prems" obtain r where r: "encodeURIComponent us = Inr r" "e = u # r"
      by (auto split: sum.splits)
    from "2.IH"(1) [OF True r(1)] True r(2) show ?thesis
      by (simp add: unreserved_not_terminator)
  next
    case False
    show ?thesis
    proof (cases "is_lead u")
      case lead: True
      with False "2.prems" obtain v vs r where
        v: "us = v # vs" "is_trail v" "encodeURIComponent vs = Inr r"
          "e = pct_octets (utf8_octets (pair_cp u v)) @ r"
        by (auto split: list.splits if_splits sum.splits)
      from pair_facts(2) [OF lead v(2)]
      have "\<forall>x \<in> set (pct_octets (utf8_octets (pair_cp u v))). \<not> line_terminator x"
        by (intro pct_octets_no_terminator utf8_octets_bytes)
      with "2.IH"(2) [OF False lead v(1,2,3)] v(4) show ?thesis
        by auto
    next
      case nolead: False
      with False "2.prems" obtain r where
        r: "\<not> is_trail u" "encodeURIComponent us = Inr r"
          "e = pct_octets (utf8_octets (unat u)) @ r"
        by (auto split: if_splits sum.splits)
      from scalar_bmp [OF nolead r(1)]
      have "\<forall>x \<in> set (pct_octets (utf8_octets (unat u))). \<not> line_terminator x"
        by (intro pct_octets_no_terminator utf8_octets_bytes)
      with "2.IH"(3) [OF False nolead r(1,2)] r(3) show ?thesis
        by auto
    qed
  qed
qed

lemma encoded_nonempty:
  assumes "encodeURIComponent s = Inr e" "s \<noteq> []"
  shows "e \<noteq> []"
proof -
  from assms(2) obtain u us where s: "s = u # us" by (cases s) auto
  have "pct_octets (utf8_octets cp) \<noteq> []" for cp
    using utf8_octets_Cons [of cp] by (auto simp: pct_octets_def pct_octet_def)
  with assms(1) show ?thesis
    unfolding s by (auto split: if_splits sum.splits list.splits)
qed

subsection \<open>The hash of a route, read back\<close>

lemma match_route_encoded:
  assumes "e \<noteq> []" "\<forall>u \<in> set e. \<not> line_terminator u"
  shows "match_route prefix (prefix @ cu CHR ''='' # e) = Some e"
proof -
  from assms(2) have t: "takeWhile (\<lambda>u. \<not> line_terminator u) e = e"
    by (simp add: takeWhile_eq_all_conv)
  show ?thesis
    by (simp add: match_route_def Let_def t assms(1))
qed

lemma hash_round_trip:
  assumes "encodeURIComponent c = Inr e" "c \<noteq> []"
  shows "decode_hash prefix (cu CHR ''#'' # prefix @ cu CHR ''='' # e) = Inr (Some c)"
  using match_route_encoded [OF encoded_nonempty [OF assms] encoded_no_terminator [OF assms(1)]]
    decode_encode [OF assms(1)]
  by (simp add: decode_hash_def)

lemma clean_route:
  assumes "p \<noteq> []" "p \<noteq> js ''#''" "take 2 p \<noteq> js ''##''"
  defines "c \<equiv> (if startsWith p CHR ''#'' then drop 1 p else p)"
  shows "c \<noteq> []" and "hashRoute_of c = hashRoute_of p"
proof -
  show "c \<noteq> []"
    using assms(1,2) unfolding c_def
    by (cases p) (auto simp: startsWith_def js_def)
  show "hashRoute_of c = hashRoute_of p"
  proof (cases "startsWith p CHR ''#''")
    case False
    then show ?thesis by (simp add: c_def)
  next
    case True
    then obtain t where p: "p = cu CHR ''#'' # t"
      by (cases p) (auto simp: startsWith_def)
    with assms(3) have "\<not> startsWith t CHR ''#''"
      by (cases t) (auto simp: startsWith_def js_def)
    with True p show ?thesis
      by (simp add: c_def hashRoute_of_def)
  qed
qed

section \<open>Properties of the serializer\<close>

subsection \<open>The structure of a result\<close>

lemma stylesLink_step_Inr:
  assumes "stylesLink_step c (u, pm, lim) = Inr (u', pm', lim')"
  shows "u' = set_opt ''stylesLink'' (inlined (stylesLink c)) u"
    and "pm' = (if deferred (stylesLink c) then pm\<lparr>pm_stylesLink := stylesLink c\<rparr> else pm)"
    and "lim' = (lim \<or> deferred (stylesLink c))"
  using assms
  by (auto simp: stylesLink_step_def deferred_def inlined_def set_opt_def
        split: option.splits if_splits sum.splits)

lemma styles_step_Inr:
  assumes "styles_step c (u, pm, lim) = Inr (u', pm', lim')"
  shows "u' = set_opt ''styles'' (inlined (styles c)) u"
    and "pm' = (if deferred (styles c) then pm\<lparr>pm_styles := styles c\<rparr> else pm)"
    and "lim' = (lim \<or> deferred (styles c))"
  using assms
  by (auto simp: styles_step_def deferred_def inlined_def set_opt_def
        split: option.splits if_splits sum.splits)

lemma build_url_Inr:
  assumes "build_url P c = Inr (u, pm, lim)"
  shows "\<exists>u0. P (resolve_base c) = Some u0 \<and>
           u = set_opt ''styles'' (inlined (styles c))
                 (set_opt ''stylesLink'' (inlined (stylesLink c)) (add_essential c u0))"
    and "pm = \<lparr>pm_stylesLink = (if deferred (stylesLink c) then stylesLink c else None),
              pm_styles = (if deferred (styles c) then styles c else None),
              pm_defaultLanguage = None\<rparr>"
    and "lim = (deferred (stylesLink c) \<or> deferred (styles c))"
proof -
  from assms obtain u0 where u0: "P (resolve_base c) = Some u0"
    by (auto simp: build_url_def split: option.splits)
  with assms obtain b where
    b: "stylesLink_step c (add_essential c u0, empty_overflow, False) = Inr b"
      and s: "styles_step c b = Inr (u, pm, lim)"
    by (auto simp: build_url_def split: sum.splits)
  obtain u1 pm1 lim1 where b1: "b = (u1, pm1, lim1)" by (cases b)
  note A = stylesLink_step_Inr [OF b [unfolded b1]]
  note B = styles_step_Inr [OF s [unfolded b1]]
  from u0 A(1) B(1) show "\<exists>u0. P (resolve_base c) = Some u0 \<and>
           u = set_opt ''styles'' (inlined (styles c))
                 (set_opt ''stylesLink'' (inlined (stylesLink c)) (add_essential c u0))"
    by simp
  from A(2) B(2) show "pm = \<lparr>pm_stylesLink = (if deferred (stylesLink c) then stylesLink c else None),
              pm_styles = (if deferred (styles c) then styles c else None),
              pm_defaultLanguage = None\<rparr>"
    by (simp add: empty_overflow_def)
  from A(3) B(3) show "lim = (deferred (stylesLink c) \<or> deferred (styles c))"
    by simp
qed

lemma deferred_truthy: "deferred f \<Longrightarrow> f \<noteq> None"
  by (auto simp: deferred_def split: option.splits)

lemma formatChekinUrl_cases:
  assumes "formatChekinUrl P c = Inr r"
  obtains u pm lim where "build_url P c = Inr (u, pm, lim)"
  using assms by (auto simp: formatChekinUrl_def split: sum.splits)

lemma format_no_fallback:
  assumes "formatChekinUrl P c = Inr r" and "build_url P c = Inr (u, pm, lim)"
    and "\<not> fallback P c"
  shows "r = \<lparr>url = URL_toString u,
              postMessageConfig = (if length (Object_keys pm) > 0 then Some pm else None),
              isLengthLimited = lim\<rparr>"
  using assms by (auto simp: formatChekinUrl_def fallback_def Let_def)

lemma format_fallback:
  assumes "formatChekinUrl P c = Inr r" and "build_url P c = Inr (u, pm, lim)"
    and "fallback P c"
  shows "\<exists>u0. P (resolve_base c) = Some u0 \<and>
          r = \<lparr>url = URL_toString (searchParams_set (js ''apiKey'') (apiKey c) u0),
               postMessageConfig = Some (pm\<lparr>pm_defaultLanguage := Some (defaultLanguage c)\<rparr>),
               isLengthLimited = True\<rparr>"
  using assms
  by (auto simp: formatChekinUrl_def fallback_def Let_def minimal_url_def split: option.splits)

subsection \<open>Query parameters\<close>

lemma map_of_filter_other:
  "k \<noteq> n \<Longrightarrow> map_of (filter (\<lambda>kv. fst kv \<noteq> n) ps) k = map_of ps k"
  by (induction ps) auto

lemma map_of_set_first:
  "map_of (set_first n v ps) k =
     (if k = n then (if n \<in> fst ` set ps then Some v else None) else map_of ps k)"
  by (induction ps) (force simp: map_of_filter_other)+

lemma map_of_append_new:
  "map_of (ps @ [(n, v)]) k =
     (case map_of ps k of Some x \<Rightarrow> Some x | None \<Rightarrow> if k = n then Some v else None)"
  by (induction ps) auto

lemma param_after_set:
  "map_of (u_params (searchParams_set n v u)) k =
     (if k = n then Some v else map_of (u_params u) k)"
proof (cases "n \<in> fst ` set (u_params u)")
  case True
  then show ?thesis
    by (simp add: searchParams_set_def map_of_set_first)
next
  case False
  then have "map_of (u_params u) n = None"
    by (simp add: map_of_eq_None_iff)
  with False show ?thesis
    by (auto simp: searchParams_set_def map_add_def split: option.splits)
qed

lemma param_after_set_opt:
  "map_of (u_params (set_opt n v u)) k =
     (if k = js n \<and> v \<noteq> None then v else map_of (u_params u) k)"
  by (auto simp: set_opt_def param_after_set split: option.splits)

lemma param_after_essential:
  "k \<notin> {js ''apiKey'', js ''lang'', js ''autoHeight''} \<Longrightarrow>
     map_of (u_params (add_essential c u)) k = map_of (u_params u) k"
  by (auto simp: add_essential_def essentialParams_def param_after_set split: option.splits)

lemma essential_keeps_styles:
  "map_of (u_params (add_essential c u)) (js ''stylesLink'') = map_of (u_params u) (js ''stylesLink'')"
  "map_of (u_params (add_essential c u)) (js ''styles'') = map_of (u_params u) (js ''styles'')"
  by (rule param_after_essential, simp add: js_def cu_def)+

lemma key_distinct:
  "js ''stylesLink'' \<noteq> js ''styles''"
  "js ''styles'' \<noteq> js ''stylesLink''"
  "js ''stylesLink'' \<notin> {js ''apiKey'', js ''lang'', js ''autoHeight''}"
  "js ''styles'' \<notin> {js ''apiKey'', js ''lang'', js ''autoHeight''}"
  "js ''stylesLink'' \<noteq> js ''apiKey''"
  "js ''styles'' \<noteq> js ''apiKey''"
  by (simp_all add: js_def cu_def)

lemma inlined_Some:
  "f = Some v \<Longrightarrow> v \<noteq> [] \<Longrightarrow> encodeURIComponent v = Inr e \<Longrightarrow>
     inlined f = (if length e < 500 then Some e else None) \<and> deferred f = (500 \<le> length e)"
  by (auto simp: inlined_def deferred_def)

lemma result_overflow:
  assumes "formatChekinUrl P c = Inr r" and "build_url P c = Inr (u, pm, lim)"
  shows "\<forall>q. postMessageConfig r = Some q \<longrightarrow>
           pm_stylesLink q = pm_stylesLink pm \<and> pm_styles q = pm_styles pm"
    and "pm_stylesLink pm \<noteq> None \<or> pm_styles pm \<noteq> None \<Longrightarrow> \<exists>q. postMessageConfig r = Some q"
    and "lim \<Longrightarrow> isLengthLimited r"
    and "\<not> fallback P c \<Longrightarrow> url r = URL_toString u"
proof -
  show "\<forall>q. postMessageConfig r = Some q \<longrightarrow>
           pm_stylesLink q = pm_stylesLink pm \<and> pm_styles q = pm_styles pm"
  proof (cases "fallback P c")
    case True
    from format_fallback [OF assms True] show ?thesis by auto
  next
    case False
    from format_no_fallback [OF assms False] show ?thesis by auto
  qed
  show "\<exists>q. postMessageConfig r = Some q" if "pm_stylesLink pm \<noteq> None \<or> pm_styles pm \<noteq> None"
  proof (cases "fallback P c")
    case True
    from format_fallback [OF assms True] show ?thesis by auto
  next
    case False
    from that have "Object_keys pm \<noteq> []" by (auto simp: Object_keys_def)
    with format_no_fallback [OF assms False] show ?thesis by simp
  qed
  show "isLengthLimited r" if lim
  proof (cases "fallback P c")
    case True
    from format_fallback [OF assms True] show ?thesis by auto
  next
    case False
    from format_no_fallback [OF assms False] that show ?thesis by simp
  qed
  show "url r = URL_toString u" if "\<not> fallback P c"
    using format_no_fallback [OF assms that] by simp
qed

lemma built_params:
  assumes "build_url P c = Inr (u, pm, lim)" and "P (resolve_base c) = Some u0"
  shows "map_of (u_params u) (js ''stylesLink'') =
           (if inlined (stylesLink c) \<noteq> None then inlined (stylesLink c)
            else map_of (u_params u0) (js ''stylesLink''))"
    and "map_of (u_params u) (js ''styles'') =
           (if inlined (styles c) \<noteq> None then inlined (styles c)
            else map_of (u_params u0) (js ''styles''))"
proof -
  from build_url_Inr(1) [OF assms(1)] assms(2)
  have u: "u = set_opt ''styles'' (inlined (styles c))
                 (set_opt ''stylesLink'' (inlined (stylesLink c)) (add_essential c u0))"
    by simp
  show "map_of (u_params u) (js ''stylesLink'') =
           (if inlined (stylesLink c) \<noteq> None then inlined (stylesLink c)
            else map_of (u_params u0) (js ''stylesLink''))"
    by (simp add: u param_after_set_opt essential_keeps_styles key_distinct)
  show "map_of (u_params u) (js ''styles'') =
           (if inlined (styles c) \<noteq> None then inlined (styles c)
            else map_of (u_params u0) (js ''styles''))"
    by (simp add: u param_after_set_opt essential_keeps_styles key_distinct)
qed

lemma threshold_field:
  assumes "fld = Some v" "v \<noteq> []" "encodeURIComponent v = Inr e"
    and "par = (if inlined fld \<noteq> None then inlined fld else base)"
    and "ovf = (if deferred fld then fld else None)"
    and "\<forall>q. pmc = Some q \<longrightarrow> sel q = ovf"
    and "ovf \<noteq> None \<Longrightarrow> \<exists>q. pmc = Some q"
    and "deferred fld \<Longrightarrow> lim"
  shows "if length e < 500
         then par = Some e \<and> (\<forall>q. pmc = Some q \<longrightarrow> sel q = None)
         else par = base \<and> (\<exists>q. pmc = Some q \<and> sel q = Some v) \<and> lim"
proof (cases "length e < 500")
  case True
  with inlined_Some [OF assms(1-3)] assms(4-6) show ?thesis by simp
next
  case False
  with inlined_Some [OF assms(1-3)] have d: "deferred fld" "inlined fld = None" by simp_all
  with assms(1,5) have o: "ovf = Some v" by simp
  with assms(7) obtain q where "pmc = Some q" by auto
  with assms(6) o have "\<exists>q. pmc = Some q \<and> sel q = Some v" by simp
  with False d assms(4,8) show ?thesis by simp
qed

subsection \<open>The example configurations, evaluated\<close>

lemma encodeURIComponent_unreserved:
  "\<forall>u \<in> set s. uri_unreserved u \<Longrightarrow> encodeURIComponent s = Inr s"
  by (induction s) auto

lemma alnum_plain: "is_alnum u \<Longrightarrow> \<not> is_lead u \<and> \<not> is_trail u \<and> u \<noteq> 0x20"
  by (auto simp: is_alnum_def is_lead_def is_trail_def word_le_nat_alt)

lemma form_safe_plain: "form_safe u \<Longrightarrow> \<not> is_lead u \<and> \<not> is_trail u \<and> u \<noteq> 0x20"
  by (auto simp: form_safe_def js_def cu_def dest: alnum_plain) (simp_all add: is_lead_def is_trail_def)

lemma form_urlencode_safe:
  "\<forall>u \<in> set s. form_safe u \<Longrightarrow> form_urlencode s = s"
  by (induction s) (auto dest: form_safe_plain)

lemma letters_simps [simp]:
  "length (letters n c) = n"
  "(letters n c = []) = (n = 0)"
  by (simp_all add: letters_def)

lemma letter_classes:
  "is_alnum (cu CHR ''a'')" "is_alnum (cu CHR ''b'')" "is_alnum (cu CHR ''c'')"
  "is_alnum (cu CHR ''x'')" "is_alnum (cu CHR ''k'')"
  by (simp_all add: is_alnum_def cu_def)

lemma encode_letters:
  "is_alnum (cu c) \<Longrightarrow> encodeURIComponent (letters n c) = Inr (letters n c)"
  "is_alnum (cu c) \<Longrightarrow> form_urlencode (letters n c) = letters n c"
  by (simp_all add: encodeURIComponent_unreserved form_urlencode_safe letters_def
        uri_unreserved_def form_safe_def)

lemma resolve_base_default:
  "baseUrl c = None \<Longrightarrow> version c = None \<Longrightarrow> resolve_base c = cdn_latest"
  by (simp add: resolve_base_def or_default_def getBaseUrl_def VersionMapper_truthy_def
        cdn_latest_def js_def cu_def)

lemma plain_URL_cdn:
  "plain_URL cdn_latest = Some \<lparr>u_pre = cdn_latest, u_params = [], u_fragment = None\<rparr>"
  by (simp add: plain_URL_def cdn_latest_def js_def cu_def)

lemma length_cdn: "length cdn_latest = 50"
  by (simp add: cdn_latest_def js_def)

lemma form_urlencode_words:
  "form_urlencode (js ''apiKey'') = js ''apiKey''"
  "form_urlencode (js ''lang'') = js ''lang''"
  "form_urlencode (js ''styles'') = js ''styles''"
  "form_urlencode (js ''stylesLink'') = js ''stylesLink''"
  "form_urlencode (js ''k'') = js ''k''"
  "form_urlencode (js ''a'') = js ''a''"
  "encodeURIComponent (js ''a'') = Inr (js ''a'')"
  by code_simp+

lemma unat_cu: "unat (cu c) = of_char c"
proof -
  have "(of_char c :: nat) < 256" by simp
  then have "(of_char c :: nat) < 65536" by linarith
  then show ?thesis by (simp add: cu_def unat_of_nat)
qed

lemma cu_inject [simp]: "cu c = cu d \<longleftrightarrow> c = d"
proof
  assume "cu c = cu d"
  then have "unat (cu c) = unat (cu d)" by simp
  then show "c = d" by (simp add: unat_cu)
qed simp

lemma js_inject [simp]: "js a = js b \<longleftrightarrow> a = b"
  by (simp add: js_def inj_on_def inj_map_eq_map [unfolded inj_on_def])

lemma js_Nil [simp]: "js a = [] \<longleftrightarrow> a = []"
  by (simp add: js_def)

lemma length_js [simp]: "length (js a) = length a"
  by (simp add: js_def)

lemma boundary_built:
  "build_url plain_URL boundary_config =
     Inr (\<lparr>u_pre = cdn_latest,
           u_params = [(js ''apiKey'', js ''k''), (js ''stylesLink'', letters 499 CHR ''b'')],
           u_fragment = None\<rparr>,
          \<lparr>pm_stylesLink = None, pm_styles = Some (letters 500 CHR ''c''),
           pm_defaultLanguage = None\<rparr>,
          True)"
  by (simp add: build_url_def boundary_config_def minimal_config_def
        resolve_base_default plain_URL_cdn add_essential_def essentialParams_def
        stylesLink_step_def styles_step_def encode_letters letter_classes
        searchParams_set_def empty_overflow_def)

lemma boundary_result:
  "formatChekinUrl plain_URL boundary_config =
     Inr \<lparr>url = cdn_latest @ js ''?apiKey=k&stylesLink='' @ letters 499 CHR ''b'',
          postMessageConfig = Some \<lparr>pm_stylesLink = None, pm_styles = Some (letters 500 CHR ''c''),
                                     pm_defaultLanguage = None\<rparr>,
          isLengthLimited = True\<rparr>"
  by (simp add: formatChekinUrl_def boundary_built URL_toString_def Object_keys_def
        form_urlencode_words encode_letters letter_classes length_cdn
        URL_LENGTH_LIMITS_SAFE_LIMIT_def)
     (simp add: js_def)

lemmas built_simps =
  build_url_def minimal_config_def resolve_base_default plain_URL_cdn add_essential_def
  essentialParams_def stylesLink_step_def styles_step_def encode_letters letter_classes
  searchParams_set_def empty_overflow_def form_urlencode_words

lemma example_fields:
  "resolve_base empty_styles_config = cdn_latest" "apiKey empty_styles_config = js ''k''"
  "resolve_base long_key_config = cdn_latest" "apiKey long_key_config = letters 2001 CHR ''a''"
  "defaultLanguage long_key_config = None"
  "resolve_base long_lang_config = cdn_latest" "apiKey long_lang_config = js ''k''"
  "defaultLanguage long_lang_config = Some (letters 2000 CHR ''a'')"
  "resolve_base lossy_config = cdn_latest" "apiKey lossy_config = js ''k''"
  "defaultLanguage lossy_config = Some (letters 2000 CHR ''a'')"
  "resolve_base long_styles_config = cdn_latest" "apiKey long_styles_config = js ''k''"
  "resolve_base boundary_config = cdn_latest" "apiKey boundary_config = js ''k''"
  "styles empty_styles_config = Some []" "stylesLink empty_styles_config = Some []"
  "styles lossy_config = Some (js ''a'')" "stylesLink lossy_config = Some (letters 500 CHR ''b'')"
  "styles long_styles_config = Some (letters 600 CHR ''x'')" "stylesLink long_styles_config = None"
  "styles boundary_config = Some (letters 500 CHR ''c'')"
  "stylesLink boundary_config = Some (letters 499 CHR ''b'')"
  by (simp_all add: resolve_base_default minimal_config_def empty_styles_config_def
        long_key_config_def long_lang_config_def lossy_config_def long_styles_config_def
        boundary_config_def)

lemmas result_simps =
  formatChekinUrl_def URL_toString_def Object_keys_def form_urlencode_words encode_letters
  letter_classes length_cdn URL_LENGTH_LIMITS_SAFE_LIMIT_def minimal_url_def
  example_fields plain_URL_cdn searchParams_set_def

lemma empty_styles_built:
  "build_url plain_URL empty_styles_config =
     Inr (\<lparr>u_pre = cdn_latest, u_params = [(js ''apiKey'', js ''k'')], u_fragment = None\<rparr>,
          empty_overflow, False)"
  by (simp add: built_simps empty_styles_config_def)

lemma empty_styles_result:
  "formatChekinUrl plain_URL empty_styles_config =
     Inr \<lparr>url = cdn_latest @ js ''?apiKey=k'', postMessageConfig = None, isLengthLimited = False\<rparr>"
  by (simp add: result_simps empty_styles_built empty_overflow_def) (simp add: js_def)

lemma long_key_built:
  "build_url plain_URL long_key_config =
     Inr (\<lparr>u_pre = cdn_latest, u_params = [(js ''apiKey'', letters 2001 CHR ''a'')],
           u_fragment = None\<rparr>, empty_overflow, False)"
  by (simp add: built_simps long_key_config_def)

lemma long_key_result:
  "formatChekinUrl plain_URL long_key_config =
     Inr \<lparr>url = cdn_latest @ js ''?apiKey='' @ letters 2001 CHR ''a'',
          postMessageConfig =
            Some \<lparr>pm_stylesLink = None, pm_styles = None, pm_defaultLanguage = Some None\<rparr>,
          isLengthLimited = True\<rparr>"
  by (simp add: result_simps long_key_built empty_overflow_def)
     (simp add: js_def)

lemma long_lang_built:
  "build_url plain_URL long_lang_config =
     Inr (\<lparr>u_pre = cdn_latest,
           u_params = [(js ''apiKey'', js ''k''), (js ''lang'', letters 2000 CHR ''a'')],
           u_fragment = None\<rparr>, empty_overflow, False)"
  by (simp add: built_simps long_lang_config_def)

lemma long_lang_result:
  "formatChekinUrl plain_URL long_lang_config =
     Inr \<lparr>url = cdn_latest @ js ''?apiKey=k'',
          postMessageConfig =
            Some \<lparr>pm_stylesLink = None, pm_styles = None,
                  pm_defaultLanguage = Some (Some (letters 2000 CHR ''a''))\<rparr>,
          isLengthLimited = True\<rparr>"
  by (simp add: result_simps long_lang_built empty_overflow_def)
     (simp add: js_def)

lemma lossy_built:
  "build_url plain_URL lossy_config =
     Inr (\<lparr>u_pre = cdn_latest,
           u_params = [(js ''apiKey'', js ''k''), (js ''lang'', letters 2000 CHR ''a''),
                       (js ''styles'', js ''a'')],
           u_fragment = None\<rparr>,
          \<lparr>pm_stylesLink = Some (letters 500 CHR ''b''), pm_styles = None,
           pm_defaultLanguage = None\<rparr>, True)"
  by (simp add: built_simps lossy_config_def)

lemma lossy_result:
  "formatChekinUrl plain_URL lossy_config =
     Inr \<lparr>url = cdn_latest @ js ''?apiKey=k'',
          postMessageConfig =
            Some \<lparr>pm_stylesLink = Some (letters 500 CHR ''b''), pm_styles = None,
                  pm_defaultLanguage = Some (Some (letters 2000 CHR ''a''))\<rparr>,
          isLengthLimited = True\<rparr>"
  by (simp add: result_simps lossy_built) (simp add: js_def)

lemma long_styles_built:
  "build_url plain_URL long_styles_config =
     Inr (\<lparr>u_pre = cdn_latest, u_params = [(js ''apiKey'', js ''k'')], u_fragment = None\<rparr>,
          \<lparr>pm_stylesLink = None, pm_styles = Some (letters 600 CHR ''x''),
           pm_defaultLanguage = None\<rparr>, True)"
  by (simp add: built_simps long_styles_config_def)

lemma long_styles_result:
  "formatChekinUrl plain_URL long_styles_config =
     Inr \<lparr>url = cdn_latest @ js ''?apiKey=k'',
          postMessageConfig =
            Some \<lparr>pm_stylesLink = None, pm_styles = Some (letters 600 CHR ''x''),
                  pm_defaultLanguage = None\<rparr>,
          isLengthLimited = True\<rparr>"
  by (simp add: result_simps long_styles_built) (simp add: js_def)

lemma fallback_examples:
  "fallback plain_URL long_key_config"
  "fallback plain_URL long_lang_config"
  "fallback plain_URL lossy_config"
  "\<not> fallback plain_URL long_styles_config"
  "\<not> fallback plain_URL boundary_config"
  "\<not> fallback plain_URL empty_styles_config"
  by (simp_all add: fallback_def long_key_built long_lang_built lossy_built long_styles_built
        boundary_built empty_styles_built URL_toString_def form_urlencode_words encode_letters
        letter_classes length_cdn URL_LENGTH_LIMITS_SAFE_LIMIT_def)

lemma inlined_not_deferred: "inlined f = Some e \<Longrightarrow> \<not> deferred f"
  by (auto simp: inlined_def deferred_def split: option.splits sum.splits if_splits)

lemma example_parsed:
  "plain_URL (resolve_base lossy_config)
     = Some \<lparr>u_pre = cdn_latest, u_params = [], u_fragment = None\<rparr>"
  "plain_URL (resolve_base boundary_config)
     = Some \<lparr>u_pre = cdn_latest, u_params = [], u_fragment = None\<rparr>"
  by (simp_all add: example_fields plain_URL_cdn)

lemma example_deferrals:
  "inlined (styles lossy_config) = Some (js ''a'')"
  "deferred (stylesLink lossy_config)"
  "\<not> deferred (stylesLink long_styles_config)"
  "deferred (styles long_styles_config)"
  "\<not> deferred (stylesLink empty_styles_config)"
  "\<not> deferred (styles empty_styles_config)"
  by (simp_all add: inlined_def deferred_def example_fields form_urlencode_words
        encode_letters letter_classes)

subsection \<open>The claims\<close>

text \<open>
  Claim C8, as the code has it. Whenever \<open>formatChekinUrl\<close> returns, \<open>postMessageConfig\<close>
  is absent exactly when neither styling field was deferred and the safe-ceiling fallback
  was not taken. A payload that is returned has at least one key: it holds the styling
  values that were deferred and, exactly in the fallback, the key \<open>defaultLanguage\<close> with the
  configuration's value, which is \<open>undefined\<close> when the configuration has no language.
\<close>

theorem C8_overflow_presence:
  assumes "formatChekinUrl P c = Inr r"
  shows "(postMessageConfig r = None \<longleftrightarrow>
            \<not> deferred (stylesLink c) \<and> \<not> deferred (styles c) \<and> \<not> fallback P c) \<and>
         (\<forall>pm. postMessageConfig r = Some pm \<longrightarrow>
            Object_keys pm \<noteq> [] \<and>
            pm_stylesLink pm = (if deferred (stylesLink c) then stylesLink c else None) \<and>
            pm_styles pm = (if deferred (styles c) then styles c else None) \<and>
            pm_defaultLanguage pm = (if fallback P c then Some (defaultLanguage c) else None))"
proof -
  from assms obtain u pm lim where b: "build_url P c = Inr (u, pm, lim)"
    by (rule formatChekinUrl_cases)
  note pm = build_url_Inr(2) [OF b]
  show ?thesis
  proof (cases "fallback P c")
    case True
    from format_fallback [OF assms b True] pm show ?thesis
      using True by (auto simp: Object_keys_def)
  next
    case False
    from format_no_fallback [OF assms b False] pm show ?thesis
      using False by (auto simp: Object_keys_def dest: deferred_truthy)
  qed
qed

theorem C8_witness:
  "fallback plain_URL long_key_config \<and>
   (\<exists>r q. formatChekinUrl plain_URL long_key_config = Inr r \<and>
          url r = cdn_latest @ js ''?apiKey='' @ letters 2001 CHR ''a'' \<and>
          postMessageConfig r = Some q \<and> Object_keys q = [''defaultLanguage''] \<and>
          pm_defaultLanguage q = Some None) \<and>
   \<not> deferred (stylesLink long_styles_config) \<and> deferred (styles long_styles_config) \<and>
   \<not> fallback plain_URL long_styles_config \<and>
   (\<exists>r q. formatChekinUrl plain_URL long_styles_config = Inr r \<and>
          postMessageConfig r = Some q \<and> Object_keys q = [''styles''] \<and>
          pm_styles q = Some (letters 600 CHR ''x'')) \<and>
   \<not> deferred (stylesLink empty_styles_config) \<and> \<not> deferred (styles empty_styles_config) \<and>
   \<not> fallback plain_URL empty_styles_config \<and>
   (\<exists>r. formatChekinUrl plain_URL empty_styles_config = Inr r \<and> postMessageConfig r = None)"
proof -
  note A = C8_overflow_presence [OF long_key_result]
  note B = C8_overflow_presence [OF long_styles_result]
  note C = C8_overflow_presence [OF empty_styles_result]
  let ?qa = "\<lparr>pm_stylesLink = None, pm_styles = None, pm_defaultLanguage = Some None\<rparr>"
  let ?qb = "\<lparr>pm_stylesLink = None, pm_styles = Some (letters 600 CHR ''x''),
              pm_defaultLanguage = None\<rparr>"
  from A fallback_examples(1) have a: "pm_defaultLanguage ?qa = Some None"
    by (simp add: example_fields)
  have ka: "Object_keys ?qa = [''defaultLanguage'']"
    by (simp add: Object_keys_def)
  from B example_deferrals(4) have b: "pm_styles ?qb = Some (letters 600 CHR ''x'')"
    by (simp add: example_fields)
  have kb: "Object_keys ?qb = [''styles'']"
    by (simp add: Object_keys_def)
  from C example_deferrals(5,6) fallback_examples(6)
  have c: "postMessageConfig
             \<lparr>url = cdn_latest @ js ''?apiKey=k'', postMessageConfig = None,
              isLengthLimited = False\<rparr> = None"
    by simp
  from a ka b kb c show ?thesis
    using example_deferrals(3-6) fallback_examples(1,4,6)
    by (simp add: long_key_result long_styles_result empty_styles_result)
qed

text \<open>
  A payload although no field was deferred: with an API key of 2001 characters and no
  styling field and no language, the fallback returns the object whose only key,
  \<open>defaultLanguage\<close>, holds \<open>undefined\<close>.
\<close>

theorem C8_payload_without_deferral:
  "stylesLink long_key_config = None \<and> styles long_key_config = None \<and>
   defaultLanguage long_key_config = None \<and>
   \<not> deferred (stylesLink long_key_config) \<and> \<not> deferred (styles long_key_config) \<and>
   formatChekinUrl plain_URL long_key_config =
     Inr \<lparr>url = cdn_latest @ js ''?apiKey='' @ letters 2001 CHR ''a'',
          postMessageConfig =
            Some \<lparr>pm_stylesLink = None, pm_styles = None, pm_defaultLanguage = Some None\<rparr>,
          isLengthLimited = True\<rparr>"
proof -
  have f: "stylesLink long_key_config = None" "styles long_key_config = None"
      "defaultLanguage long_key_config = None"
    by (simp_all add: long_key_config_def minimal_config_def)
  then show ?thesis
    by (simp add: long_key_result deferred_def)
qed

text \<open>
  Claim C7, for values that are not empty. Let \<open>u\<close> be the address built by lines 34 to 80
  and \<open>r\<close> the result. A non-empty \<open>stylesLink\<close> (\<open>styles\<close>) whose encoding is shorter than
  500 is the value of the query parameter of that name in \<open>u\<close>, and no returned payload
  holds it; with an encoding of 500 or more, the parameter is what the base address had,
  the returned payload holds the raw value, and \<open>isLengthLimited\<close> is set. Unless the
  fallback is taken, the returned address is \<open>u\<close>.
\<close>

theorem C7_inline_threshold:
  assumes "formatChekinUrl P c = Inr r" and "build_url P c = Inr (u, pm, lim)"
    and "P (resolve_base c) = Some u0"
  shows
    "(stylesLink c = Some v \<and> v \<noteq> [] \<and> encodeURIComponent v = Inr e \<longrightarrow>
        (if length e < 500
         then map_of (u_params u) (js ''stylesLink'') = Some e \<and>
              (\<forall>q. postMessageConfig r = Some q \<longrightarrow> pm_stylesLink q = None)
         else map_of (u_params u) (js ''stylesLink'') = map_of (u_params u0) (js ''stylesLink'') \<and>
              (\<exists>q. postMessageConfig r = Some q \<and> pm_stylesLink q = Some v) \<and>
              isLengthLimited r)) \<and>
     (styles c = Some w \<and> w \<noteq> [] \<and> encodeURIComponent w = Inr f \<longrightarrow>
        (if length f < 500
         then map_of (u_params u) (js ''styles'') = Some f \<and>
              (\<forall>q. postMessageConfig r = Some q \<longrightarrow> pm_styles q = None)
         else map_of (u_params u) (js ''styles'') = map_of (u_params u0) (js ''styles'') \<and>
              (\<exists>q. postMessageConfig r = Some q \<and> pm_styles q = Some w) \<and>
              isLengthLimited r)) \<and>
     (\<not> fallback P c \<longrightarrow> url r = URL_toString u)"
proof -
  note R = result_overflow [OF assms(1,2)]
  note B = built_params [OF assms(2,3)]
  note pm = build_url_Inr(2) [OF assms(2)]
  note lim = build_url_Inr(3) [OF assms(2)]
  have sl: "pm_stylesLink pm = (if deferred (stylesLink c) then stylesLink c else None)"
    and st: "pm_styles pm = (if deferred (styles c) then styles c else None)"
    by (simp_all add: pm)
  have 1: "if length e < 500
         then map_of (u_params u) (js ''stylesLink'') = Some e \<and>
              (\<forall>q. postMessageConfig r = Some q \<longrightarrow> pm_stylesLink q = None)
         else map_of (u_params u) (js ''stylesLink'') = map_of (u_params u0) (js ''stylesLink'') \<and>
              (\<exists>q. postMessageConfig r = Some q \<and> pm_stylesLink q = Some v) \<and>
              isLengthLimited r"
    if "stylesLink c = Some v \<and> v \<noteq> [] \<and> encodeURIComponent v = Inr e"
  proof (rule threshold_field [where sel = pm_stylesLink and pmc = "postMessageConfig r"
        and lim = "isLengthLimited r", OF conjunct1 [OF that] conjunct1 [OF conjunct2 [OF that]]
        conjunct2 [OF conjunct2 [OF that]] B(1) sl])
    show "\<forall>q. postMessageConfig r = Some q \<longrightarrow> pm_stylesLink q = pm_stylesLink pm"
      using R(1) by blast
    show "\<exists>q. postMessageConfig r = Some q" if "pm_stylesLink pm \<noteq> None"
      using R(2) that by simp
    show "isLengthLimited r" if "deferred (stylesLink c)"
      using R(3) lim that by simp
  qed
  have 2: "if length f < 500
         then map_of (u_params u) (js ''styles'') = Some f \<and>
              (\<forall>q. postMessageConfig r = Some q \<longrightarrow> pm_styles q = None)
         else map_of (u_params u) (js ''styles'') = map_of (u_params u0) (js ''styles'') \<and>
              (\<exists>q. postMessageConfig r = Some q \<and> pm_styles q = Some w) \<and>
              isLengthLimited r"
    if "styles c = Some w \<and> w \<noteq> [] \<and> encodeURIComponent w = Inr f"
  proof (rule threshold_field [where sel = pm_styles and pmc = "postMessageConfig r"
        and lim = "isLengthLimited r", OF conjunct1 [OF that] conjunct1 [OF conjunct2 [OF that]]
        conjunct2 [OF conjunct2 [OF that]] B(2) st])
    show "\<forall>q. postMessageConfig r = Some q \<longrightarrow> pm_styles q = pm_styles pm"
      using R(1) by blast
    show "\<exists>q. postMessageConfig r = Some q" if "pm_styles pm \<noteq> None"
      using R(2) that by simp
    show "isLengthLimited r" if "deferred (styles c)"
      using R(3) lim that by simp
  qed
  have 3: "\<not> fallback P c \<longrightarrow> url r = URL_toString u"
    using R(4) by blast
  have i1: "stylesLink c = Some v \<and> v \<noteq> [] \<and> encodeURIComponent v = Inr e \<longrightarrow>
        (if length e < 500
         then map_of (u_params u) (js ''stylesLink'') = Some e \<and>
              (\<forall>q. postMessageConfig r = Some q \<longrightarrow> pm_stylesLink q = None)
         else map_of (u_params u) (js ''stylesLink'') = map_of (u_params u0) (js ''stylesLink'') \<and>
              (\<exists>q. postMessageConfig r = Some q \<and> pm_stylesLink q = Some v) \<and>
              isLengthLimited r)"
    by (rule impI) (rule 1)
  have i2: "styles c = Some w \<and> w \<noteq> [] \<and> encodeURIComponent w = Inr f \<longrightarrow>
        (if length f < 500
         then map_of (u_params u) (js ''styles'') = Some f \<and>
              (\<forall>q. postMessageConfig r = Some q \<longrightarrow> pm_styles q = None)
         else map_of (u_params u) (js ''styles'') = map_of (u_params u0) (js ''styles'') \<and>
              (\<exists>q. postMessageConfig r = Some q \<and> pm_styles q = Some w) \<and>
              isLengthLimited r)"
    by (rule impI) (rule 2)
  show ?thesis
    by (rule conjI [OF i1 conjI [OF i2 3]])
qed

text \<open>The boundary: an encoding of 499 code units is inlined, one of 500 is deferred.\<close>

theorem C7_witness:
  "stylesLink boundary_config = Some (letters 499 CHR ''b'') \<and>
   encodeURIComponent (letters 499 CHR ''b'') = Inr (letters 499 CHR ''b'') \<and>
   length (letters 499 CHR ''b'') = 499 \<and>
   styles boundary_config = Some (letters 500 CHR ''c'') \<and>
   encodeURIComponent (letters 500 CHR ''c'') = Inr (letters 500 CHR ''c'') \<and>
   length (letters 500 CHR ''c'') = 500 \<and>
   (\<exists>r u pm lim q.
      formatChekinUrl plain_URL boundary_config = Inr r \<and>
      build_url plain_URL boundary_config = Inr (u, pm, lim) \<and>
      map_of (u_params u) (js ''stylesLink'') = Some (letters 499 CHR ''b'') \<and>
      map_of (u_params u) (js ''styles'') = None \<and>
      url r = URL_toString u \<and>
      postMessageConfig r = Some q \<and> pm_stylesLink q = None \<and>
      pm_styles q = Some (letters 500 CHR ''c'') \<and> isLengthLimited r)"
proof -
  have e: "encodeURIComponent (letters 499 CHR ''b'') = Inr (letters 499 CHR ''b'')"
      "encodeURIComponent (letters 500 CHR ''c'') = Inr (letters 500 CHR ''c'')"
    by (simp_all add: encode_letters letter_classes)
  note T = C7_inline_threshold [OF boundary_result boundary_built example_parsed(2),
             of "letters 499 CHR ''b''" "letters 499 CHR ''b''"
                "letters 500 CHR ''c''" "letters 500 CHR ''c''"]
  from T e fallback_examples(5) show ?thesis
    by (auto simp: boundary_result boundary_built example_fields)
qed

text \<open>
  The empty string is a styling value whose encoding is shorter than 500, and it is not set
  as a query parameter: the built address has the parameter \<open>apiKey\<close> only.
\<close>

theorem C7_empty_value_not_inlined:
  "stylesLink empty_styles_config = Some [] \<and>
   encodeURIComponent [] = Inr [] \<and>
   length ([] :: jsstring) < 500 \<and>
   build_url plain_URL empty_styles_config =
     Inr (\<lparr>u_pre = cdn_latest, u_params = [(js ''apiKey'', js ''k'')], u_fragment = None\<rparr>,
          empty_overflow, False) \<and>
   map_of [(js ''apiKey'', js ''k'')] (js ''stylesLink'') = None"
  by (simp add: empty_styles_built example_fields)

text \<open>
  Claim C3, as the code has it. When the address built with every inlined parameter is
  longer than 2000, the result is the base address, parsed again, with \<open>apiKey\<close> set on it
  (so \<open>apiKey\<close> is its only parameter when the base address has none of its own),
  \<open>isLengthLimited\<close> is true, and the payload has the key \<open>defaultLanguage\<close> with the
  configuration's value. When the fallback is not taken, the returned address is at most
  2000 long.
\<close>

theorem C3_final_guard:
  assumes "formatChekinUrl P c = Inr r"
  shows "(fallback P c \<longrightarrow>
            (\<exists>u0. P (resolve_base c) = Some u0 \<and>
               url r = URL_toString (searchParams_set (js ''apiKey'') (apiKey c) u0) \<and>
               (u_params u0 = [] \<longrightarrow>
                  u_params (searchParams_set (js ''apiKey'') (apiKey c) u0)
                    = [(js ''apiKey'', apiKey c)])) \<and>
            isLengthLimited r \<and>
            (\<exists>q. postMessageConfig r = Some q \<and>
                 pm_defaultLanguage q = Some (defaultLanguage c))) \<and>
         (\<not> fallback P c \<longrightarrow> length (url r) \<le> URL_LENGTH_LIMITS_SAFE_LIMIT)"
proof -
  from assms obtain u pm lim where b: "build_url P c = Inr (u, pm, lim)"
    by (rule formatChekinUrl_cases)
  show ?thesis
  proof (cases "fallback P c")
    case True
    from format_fallback [OF assms b True] obtain u0 where
      u0: "P (resolve_base c) = Some u0"
      and r: "r = \<lparr>url = URL_toString (searchParams_set (js ''apiKey'') (apiKey c) u0),
               postMessageConfig = Some (pm\<lparr>pm_defaultLanguage := Some (defaultLanguage c)\<rparr>),
               isLengthLimited = True\<rparr>"
      by blast
    have "u_params u0 = [] \<longrightarrow>
            u_params (searchParams_set (js ''apiKey'') (apiKey c) u0) = [(js ''apiKey'', apiKey c)]"
      by (simp add: searchParams_set_def)
    with True u0 r show ?thesis by simp
  next
    case False
    from format_no_fallback [OF assms b False] have "url r = URL_toString u" by simp
    moreover from False b have "length (URL_toString u) \<le> URL_LENGTH_LIMITS_SAFE_LIMIT"
      by (simp add: fallback_def)
    ultimately show ?thesis using False by simp
  qed
qed

theorem C3_witness:
  "fallback plain_URL long_lang_config \<and>
   (\<exists>r. formatChekinUrl plain_URL long_lang_config = Inr r \<and>
        url r = cdn_latest @ js ''?apiKey=k'' \<and> isLengthLimited r \<and>
        (\<exists>q. postMessageConfig r = Some q \<and>
             pm_defaultLanguage q = Some (Some (letters 2000 CHR ''a'')))) \<and>
   \<not> fallback plain_URL long_styles_config \<and>
   (\<exists>r. formatChekinUrl plain_URL long_styles_config = Inr r \<and> length (url r) \<le> 2000)"
  using C3_final_guard [OF long_lang_result] C3_final_guard [OF long_styles_result]
    fallback_examples
  by (simp add: long_lang_result long_styles_result URL_LENGTH_LIMITS_SAFE_LIMIT_def)

text \<open>
  With an API key of 2001 characters the fallback address itself is 2059 long: the
  returned address can exceed the safe ceiling.
\<close>

theorem C3_long_key_exceeds_ceiling:
  "formatChekinUrl plain_URL long_key_config =
     Inr \<lparr>url = cdn_latest @ js ''?apiKey='' @ letters 2001 CHR ''a'',
          postMessageConfig =
            Some \<lparr>pm_stylesLink = None, pm_styles = None, pm_defaultLanguage = Some None\<rparr>,
          isLengthLimited = True\<rparr> \<and>
   length (cdn_latest @ js ''?apiKey='' @ letters 2001 CHR ''a'') = 2059 \<and>
   URL_LENGTH_LIMITS_SAFE_LIMIT = 2000"
  by (simp add: long_key_result length_cdn URL_LENGTH_LIMITS_SAFE_LIMIT_def)

text \<open>
  Claim C10. In the fallback the returned address is the base address with \<open>apiKey\<close> set,
  so its \<open>styles\<close> and \<open>stylesLink\<close> parameters are those of the base address, not the
  configuration's; and the returned payload holds a styling value exactly when it was
  deferred. A value that had been inlined is in neither.
\<close>

theorem C10_inlined_styles_lost_in_fallback:
  assumes "formatChekinUrl P c = Inr r" and "fallback P c" and "P (resolve_base c) = Some u0"
  shows "url r = URL_toString (searchParams_set (js ''apiKey'') (apiKey c) u0) \<and>
         map_of (u_params (searchParams_set (js ''apiKey'') (apiKey c) u0)) (js ''styles'')
           = map_of (u_params u0) (js ''styles'') \<and>
         map_of (u_params (searchParams_set (js ''apiKey'') (apiKey c) u0)) (js ''stylesLink'')
           = map_of (u_params u0) (js ''stylesLink'') \<and>
         (\<exists>q. postMessageConfig r = Some q \<and>
              (inlined (styles c) \<noteq> None \<longrightarrow> pm_styles q = None) \<and>
              (inlined (stylesLink c) \<noteq> None \<longrightarrow> pm_stylesLink q = None) \<and>
              (deferred (styles c) \<longrightarrow> pm_styles q = styles c) \<and>
              (deferred (stylesLink c) \<longrightarrow> pm_stylesLink q = stylesLink c))"
proof -
  from assms(1) obtain u pm lim where b: "build_url P c = Inr (u, pm, lim)"
    by (rule formatChekinUrl_cases)
  note pm = build_url_Inr(2) [OF b]
  from format_fallback [OF assms(1) b assms(2)] assms(3)
  have r: "r = \<lparr>url = URL_toString (searchParams_set (js ''apiKey'') (apiKey c) u0),
               postMessageConfig = Some (pm\<lparr>pm_defaultLanguage := Some (defaultLanguage c)\<rparr>),
               isLengthLimited = True\<rparr>"
    by auto
  have p: "map_of (u_params (searchParams_set (js ''apiKey'') (apiKey c) u0)) (js ''styles'')
             = map_of (u_params u0) (js ''styles'')"
     "map_of (u_params (searchParams_set (js ''apiKey'') (apiKey c) u0)) (js ''stylesLink'')
             = map_of (u_params u0) (js ''stylesLink'')"
    by (simp_all add: param_after_set)
  have q: "inlined (styles c) \<noteq> None \<longrightarrow> pm_styles pm = None"
      "inlined (stylesLink c) \<noteq> None \<longrightarrow> pm_stylesLink pm = None"
      "deferred (styles c) \<longrightarrow> pm_styles pm = styles c"
      "deferred (stylesLink c) \<longrightarrow> pm_stylesLink pm = stylesLink c"
    using pm by (auto dest: inlined_not_deferred)
  from r p q show ?thesis by simp
qed

text \<open>
  A configuration that loses its one-character \<open>styles\<close> and delivers its 500-character
  \<open>stylesLink\<close>.
\<close>

theorem C10_witness:
  "styles lossy_config = Some (js ''a'') \<and>
   stylesLink lossy_config = Some (letters 500 CHR ''b'') \<and>
   inlined (styles lossy_config) \<noteq> None \<and>
   deferred (stylesLink lossy_config) \<and>
   fallback plain_URL lossy_config \<and>
   (\<exists>r q. formatChekinUrl plain_URL lossy_config = Inr r \<and>
          url r = cdn_latest @ js ''?apiKey=k'' \<and>
          postMessageConfig r = Some q \<and>
          pm_styles q = None \<and> pm_stylesLink q = Some (letters 500 CHR ''b''))"
proof -
  note T = C10_inlined_styles_lost_in_fallback
             [OF lossy_result fallback_examples(3) example_parsed(1)]
  from T obtain q where
    q: "postMessageConfig
          \<lparr>url = cdn_latest @ js ''?apiKey=k'',
           postMessageConfig =
             Some \<lparr>pm_stylesLink = Some (letters 500 CHR ''b''), pm_styles = None,
                   pm_defaultLanguage = Some (Some (letters 2000 CHR ''a''))\<rparr>,
           isLengthLimited = True\<rparr> = Some q"
      "inlined (styles lossy_config) \<noteq> None \<longrightarrow> pm_styles q = None"
      "deferred (stylesLink lossy_config) \<longrightarrow> pm_stylesLink q = stylesLink lossy_config"
    by blast
  from q example_deferrals(1,2) have "pm_styles q = None"
      "pm_stylesLink q = Some (letters 500 CHR ''b'')"
    by (simp_all add: example_fields)
  with q(1) show ?thesis
    using example_deferrals(1,2) fallback_examples(3)
    by (simp add: lossy_result example_fields)
qed

section \<open>Properties of the Communicator\<close>

subsection \<open>What each method leaves alone\<close>

lemma logger_log_fields [simp]:
  "contentWindow (logger_log lvl m d s) = contentWindow s"
  "eventListeners (logger_log lvl m d s) = eventListeners s"
  "arrays (logger_log lvl m d s) = arrays s"
  "next_array (logger_log lvl m d s) = next_array s"
  "currentRoute (logger_log lvl m d s) = currentRoute s"
  "routeSyncEnabled (logger_log lvl m d s) = routeSyncEnabled s"
  "hashPrefix (logger_log lvl m d s) = hashPrefix s"
  "location_hash (logger_log lvl m d s) = location_hash s"
  "window_listeners (logger_log lvl m d s) = window_listeners s"
  "next_function (logger_log lvl m d s) = next_function s"
  "posted (logger_log lvl m d s) = posted s"
  "host (logger_log lvl m d s) = host s"
  "invoked (logger_log lvl m d s) = invoked s"
  by (simp_all add: logger_log_def)

text \<open>
  Whatever a listener does, the loop leaves the iframe's window, the current route, the
  host hash and the posted messages as they were.
\<close>

lemma apply_call_fields:
  "contentWindow (apply_call c s) = contentWindow s"
  "currentRoute (apply_call c s) = currentRoute s"
  "location_hash (apply_call c s) = location_hash s"
  "posted (apply_call c s) = posted s"
  by (cases c; simp add: on_def off_identity_def destroy_def bind_def removeEventListener_def
        Let_def split: option.splits prod.splits)+

lemma fold_apply_call_fields:
  "contentWindow (fold apply_call cs s) = contentWindow s"
  "currentRoute (fold apply_call cs s) = currentRoute s"
  "location_hash (fold apply_call cs s) = location_hash s"
  "posted (fold apply_call cs s) = posted s"
  by (induction cs arbitrary: s; simp add: apply_call_fields)+

lemma invoke_fields:
  "contentWindow (invoke ty p l s) = contentWindow s"
  "currentRoute (invoke ty p l s) = currentRoute s"
  "location_hash (invoke ty p l s) = location_hash s"
  "posted (invoke ty p l s) = posted s"
  by (simp_all add: invoke_def Let_def fold_apply_call_fields split: prod.splits option.splits)

lemma forEach_from_fields:
  "contentWindow (forEach_from ty p a k n s) = contentWindow s"
  "currentRoute (forEach_from ty p a k n s) = currentRoute s"
  "location_hash (forEach_from ty p a k n s) = location_hash s"
  "posted (forEach_from ty p a k n s) = posted s"
  by (induction n arbitrary: k s; simp add: invoke_fields)+

lemma dispatch_fields [simp]:
  "contentWindow (dispatch ty p s) = contentWindow s"
  "currentRoute (dispatch ty p s) = currentRoute s"
  "location_hash (dispatch ty p s) = location_hash s"
  "posted (dispatch ty p s) = posted s"
  by (simp_all add: dispatch_def forEach_from_fields split: option.splits)




lemma updateParentHash_fields:
  "updateParentHash r s = (e, s') \<Longrightarrow>
     contentWindow s' = contentWindow s \<and> eventListeners s' = eventListeners s \<and>
     arrays s' = arrays s \<and>
     currentRoute s' = currentRoute s \<and> posted s' = posted s \<and> host s' = host s \<and>
     invoked s' = invoked s"
  by (auto simp: updateParentHash_def split: sum.splits if_splits)

lemma handleIframeRouteChange_fields:
  "handleIframeRouteChange v s = (e, s') \<Longrightarrow>
     contentWindow s' = contentWindow s \<and> eventListeners s' = eventListeners s \<and>
     arrays s' = arrays s \<and>
     posted s' = posted s \<and> host s' = host s \<and> invoked s' = invoked s"
  by (auto simp: handleIframeRouteChange_def Let_def
        split: jsval.splits if_splits prod.splits option.splits
        dest!: updateParentHash_fields)

lemma route_step_fields:
  "route_step d s = (e, s') \<Longrightarrow>
     contentWindow s' = contentWindow s \<and> eventListeners s' = eventListeners s \<and>
     arrays s' = arrays s \<and>
     posted s' = posted s \<and> host s' = host s \<and> invoked s' = invoked s"
  by (auto simp: route_step_def split: if_splits dest!: handleIframeRouteChange_fields)

lemma handleMessage_contentWindow:
  "handleMessage ev s = (e, s') \<Longrightarrow> contentWindow s' = contentWindow s"
  by (auto simp: handleMessage_def Let_def logCommunicationEvent_def
        split: if_splits prod.splits option.splits dest!: route_step_fields)

subsection \<open>The example pages, evaluated\<close>

lemma page1_eval:
  "page1 = (fresh_page 0)\<lparr>contentWindow := Some 1, config := minimal_config (js ''k''),
      currentRoute := js ''#/'', routeSyncEnabled := True, hashPrefix := js ''chekin'',
      window_listeners :=
        [(''message'', 0, HandleMessage), (''hashchange'', 1, HandleParentHashChange)],
      next_function := 2,
      logger :=
        [\<lparr>lg_level = DEBUG, lg_message = js ''Route synchronization enabled'',
          lg_data = JObj [(js ''hashPrefix'', JStr (js ''chekin''))],
          lg_context = js ''COMMUNICATION''\<rparr>,
         \<lparr>lg_level = DEBUG,
          lg_message = js ''ChekinCommunicator initialized with automatic route sync'',
          lg_data = JUndefined, lg_context = js ''COMMUNICATION''\<rparr>]\<rparr>"
  by (simp add: page1_def ChekinCommunicator_def minimal_config_def fresh_page_def bind_def
        addEventListener_def enableRouteSync_def logger_log_def or_default_def Let_def js_def)

lemma page2_fields:
  "contentWindow page2 = Some 1"
  "currentRoute page2 = js ''#/foo''"
  by code_simp+



subsection \<open>Sender filtering\<close>

lemma deliver_filter:
  "deliver (filter (\<lambda>e. ev_source e = contentWindow s) evs) s = deliver evs s"
proof (induction evs arbitrary: s)
  case Nil
  show ?case by simp
next
  case (Cons e es)
  show ?case
  proof (cases "ev_source e = contentWindow s")
    case True
    obtain r s1 where h: "handleMessage e s = (r, s1)"
      by (cases "handleMessage e s")
    then have "contentWindow s1 = contentWindow s"
      by (rule handleMessage_contentWindow)
    with Cons.IH [of s1] True h show ?thesis by simp
  next
    case False
    then have "handleMessage e s = (None, s)"
      by (simp add: handleMessage_def)
    with False Cons.IH [of s] show ?thesis
      by (simp split: prod.splits)
  qed
qed

text \<open>
  Claim C6. A message event whose source is not the tracked iframe's \<open>contentWindow\<close>
  leaves the whole state as it was: no log call, no listener invoked, same route, same
  registry, and no exception. Hence delivering a sequence of events gives the same final
  state and the same escaped exceptions as delivering only those events that come from the
  iframe.
\<close>

theorem C6_foreign_messages_ignored:
  "(ev_source ev \<noteq> contentWindow s \<longrightarrow> handleMessage ev s = (None, s)) \<and>
   deliver (filter (\<lambda>e. ev_source e = contentWindow s) evs) s = deliver evs s"
  by (simp add: deliver_filter handleMessage_def)

theorem C6_witness:
  "ev_source (ready_event (Some 2)) \<noteq> contentWindow page1 \<and>
   handleMessage (ready_event (Some 2)) page1 = (None, page1)"
  using C6_foreign_messages_ignored [of "ready_event (Some 2)" page1 "[]"]
  by (simp add: page1_eval ready_event_def fresh_page_def)

subsection \<open>Route changes reported by the iframe\<close>

text \<open>
  Claim C9. When the path reported by a route-changed message, once given its leading
  \<open>#\<close>, equals the current route, \<open>handleIframeRouteChange\<close> returns the state it was
  given; and \<open>handleMessage\<close> on such a message, whatever the listeners do, leaves the
  current route, the host hash and the list of posted messages as they were.
\<close>

theorem C9_unchanged_route_is_noop:
  assumes "hashRoute_of r = currentRoute s"
  shows "handleIframeRouteChange (JStr r) s = (None, s) \<and>
         (ev_source ev = contentWindow s \<and>
          m_type (ev_data ev) = js ''chekin:route-changed'' \<and>
          js_or (opt_get (m_payload (ev_data ev)) (js ''hash''))
                (opt_get (m_payload (ev_data ev)) (js ''fullUrl'')) = JStr r \<longrightarrow>
          (\<exists>s'. handleMessage ev s = (None, s') \<and> currentRoute s' = currentRoute s \<and>
                location_hash s' = location_hash s \<and> posted s' = posted s))"
  using assms
  by (simp add: handleIframeRouteChange_def handleMessage_def route_step_def Let_def
        logCommunicationEvent_def)

theorem C9_witness:
  "hashRoute_of (js ''/foo'') = currentRoute page2 \<and>
   handleIframeRouteChange (JStr (js ''/foo'')) page2 = (None, page2) \<and>
   (\<exists>s'. handleMessage (route_changed (js ''/foo'')) page2 = (None, s') \<and>
         currentRoute s' = js ''#/foo'' \<and> location_hash s' = location_hash page2 \<and>
         posted s' = posted page2)"
proof -
  have h: "hashRoute_of (js ''/foo'') = currentRoute page2"
    by code_simp
  have p: "js_or (opt_get (m_payload (ev_data (route_changed (js ''/foo'')))) (js ''hash''))
             (opt_get (m_payload (ev_data (route_changed (js ''/foo'')))) (js ''fullUrl''))
           = JStr (js ''/foo'')"
    by code_simp
  from C9_unchanged_route_is_noop [OF h, of "route_changed (js ''/foo'')"] h p
  show ?thesis
    by (simp add: page2_fields route_changed_def)
qed

subsection \<open>Listener isolation\<close>






subsection \<open>Teardown\<close>

lemma destroy_clears_registry:
  "eventListeners (destroy s) = Map.empty"
  by (simp add: destroy_def Let_def split: prod.splits)

text \<open>
  On a state in which every registered function object is older than the next one that
  \<open>bind\<close> will create, \<open>destroy\<close> removes no window listener at all.
\<close>

lemma destroy_removes_no_listener:
  assumes "\<forall>(e, f, h) \<in> set (window_listeners s). f < next_function s"
  shows "window_listeners (destroy s) = window_listeners s"
proof -
  from assms have
    "filter (\<lambda>(e, g, _). \<not> (e = ev \<and> g = next_function s + k)) (window_listeners s)
       = window_listeners s" for ev k
    by (intro filter_True) auto
  from this [of _ 0] this [of _ 1] show ?thesis
    by (simp add: destroy_def bind_def removeEventListener_def Let_def)
qed

text \<open>
  Claim C2. \<open>destroy\<close> is to remove the window's message listener registered by the
  constructor and, with route sync on, its hash-change listener. On a fresh page, after
  construction and one or two calls of \<open>destroy\<close>, both registrations are still there:
  each \<open>bind\<close> makes a new function object, so \<open>removeEventListener\<close> is asked to remove
  a function that was never registered. The listener registry is empty after each call.
\<close>

theorem C2_destroy_leaves_window_listeners:
  "window_listeners page1 =
     [(''message'', 0, HandleMessage), (''hashchange'', 1, HandleParentHashChange)] \<and>
   window_listeners (destroy page1) = window_listeners page1 \<and>
   window_listeners (destroy (destroy page1)) = window_listeners page1 \<and>
   eventListeners (destroy page1) = Map.empty \<and>
   eventListeners (destroy (destroy page1)) = Map.empty"
  by (simp add: destroy_clears_registry page1_eval destroy_def bind_def
        removeEventListener_def logger_log_def Let_def fresh_page_def)

subsection \<open>Echo of the Communicator's own hash\<close>

text \<open>
  Claim C1. A hash-change event that finds on the window exactly the hash the Communicator
  wrote for its current route must send nothing. On the page where the iframe has reported
  \<open>#/foo\<close>, the hash is \<open>#chekin=%2Ffoo\<close>, which is the encoding of the current route,
  and nothing has been posted; \<open>handleParentHashChange\<close> then posts a \<open>route-sync\<close>
  message: the decoded route \<open>/foo\<close> is compared with the current route \<open>#/foo\<close> before
  it is given its leading \<open>#\<close>.
\<close>

theorem C1_echo_is_sent_again:
  "routeSyncEnabled page2 \<and>
   currentRoute page2 = js ''#/foo'' \<and>
   location_hash page2 = js ''#chekin=%2Ffoo'' \<and>
   encode_hash (hashPrefix page2) (currentRoute page2) = Inr (location_hash page2) \<and>
   posted page2 = [] \<and>
   posted (snd (handleParentHashChange page2)) =
     [\<lparr>m_type = js ''route-sync'', m_payload = JObj [(js ''route'', JStr (js ''#/foo''))]\<rparr>]"
  by code_simp

text \<open>
  The same happens for every current route with a non-empty path after its \<open>#\<close>: the echo
  of the Communicator's own hash is answered with a \<open>route-sync\<close> message.
\<close>

lemma echo_is_always_sent_again:
  assumes "routeSyncEnabled s" and "contentWindow s \<noteq> None"
    and "currentRoute s = cu CHR ''#'' # r" and "r \<noteq> []"
    and "encode_hash (hashPrefix s) (currentRoute s) = Inr (location_hash s)"
  shows "posted (snd (handleParentHashChange s)) =
           posted s @ [\<lparr>m_type = js ''route-sync'',
                         m_payload = JObj [(js ''route'', JStr (hashRoute_of r))]\<rparr>]"
proof -
  from assms(3,5) obtain e where e: "encodeURIComponent r = Inr e"
      and h: "location_hash s = cu CHR ''#'' # hashPrefix s @ cu CHR ''='' # e"
    by (auto simp: encode_hash_def startsWith_def Let_def split: sum.splits)
  have d: "decode_hash (hashPrefix s) (location_hash s) = Inr (Some r)"
    unfolding h using e assms(4) by (rule hash_round_trip)
  have "r \<noteq> currentRoute s"
    using assms(3) by simp
  with d assms(1,2) show ?thesis
    by (auto simp: handleParentHashChange_def syncRouteToIframe_def send_def Let_def)
qed

subsection \<open>Round trip of the route codec\<close>

text \<open>
  Claim C4, as the code has it. Let the prefix consist of letters, digits, \<open>_\<close> and \<open>-\<close>,
  and let \<open>p\<close> be a path that \<open>updateParentHash\<close> can encode (well-formed UTF-16), that is
  neither empty nor the single character \<open>#\<close>, and that does not begin with \<open>##\<close>. Then
  the hash written for \<open>p\<close> is decoded by the parse-and-decode logic to a route whose
  normal form is the normal form of \<open>p\<close>, and \<open>sendInitialRoute\<close> on that hash makes the
  normal form of \<open>p\<close> the current route.
\<close>

theorem C4_route_round_trip:
  assumes "plain_prefix (hashPrefix s)"
    and "updateParentHash p s = (None, s1)"
    and "p \<noteq> []" and "p \<noteq> js ''#''" and "take 2 p \<noteq> js ''##''"
  shows "encode_hash (hashPrefix s) p = Inr (location_hash s1) \<and>
         (\<exists>route. decode_hash (hashPrefix s1) (location_hash s1) = Inr (Some route) \<and>
                  hashRoute_of route = hashRoute_of p) \<and>
         (\<exists>s2. sendInitialRoute s1 = (None, s2) \<and> currentRoute s2 = hashRoute_of p)"
proof -
  let ?c = "if startsWith p CHR ''#'' then drop 1 p else p"
  from assms(2) obtain h where h: "encode_hash (hashPrefix s) p = Inr h"
      and s1: "s1 = s\<lparr>location_hash := h\<rparr>"
    by (auto simp: updateParentHash_def split: sum.splits if_splits)
  from h obtain e where e: "encodeURIComponent ?c = Inr e"
      and he: "h = cu CHR ''#'' # hashPrefix s @ cu CHR ''='' # e"
    by (auto simp: encode_hash_def Let_def split: sum.splits)
  note c = clean_route [OF assms(3-5)]
  have d: "decode_hash (hashPrefix s) h = Inr (Some ?c)"
    unfolding he using e c(1) by (rule hash_round_trip)
  have 1: "encode_hash (hashPrefix s) p = Inr (location_hash s1)"
    by (simp add: h s1)
  have 2: "\<exists>route. decode_hash (hashPrefix s1) (location_hash s1) = Inr (Some route) \<and>
                  hashRoute_of route = hashRoute_of p"
    using d c(2) by (simp add: s1)
  have 3: "\<exists>s2. sendInitialRoute s1 = (None, s2) \<and> currentRoute s2 = hashRoute_of p"
    using d c(2) by (simp add: s1 sendInitialRoute_def Let_def send_def logger_log_def)
  from 1 2 3 show ?thesis by blast
qed

lemma plain_chekin: "plain_prefix (js ''chekin'')"
  by (simp add: plain_prefix_def is_alnum_def js_def cu_def)

theorem C4_witness:
  "plain_prefix (hashPrefix page1) \<and>
   fst (updateParentHash (js ''/a b'') page1) = None \<and>
   location_hash (snd (updateParentHash (js ''/a b'') page1)) = js ''#chekin=%2Fa%20b'' \<and>
   (\<exists>s2. sendInitialRoute (snd (updateParentHash (js ''/a b'') page1)) = (None, s2) \<and>
         currentRoute s2 = js ''#/a b'')"
proof -
  have p: "hashPrefix page1 = js ''chekin''"
    by code_simp
  have h1: "plain_prefix (hashPrefix page1)"
    by (simp add: p plain_chekin)
  have f: "fst (updateParentHash (js ''/a b'') page1) = None"
    by code_simp
  have l: "location_hash (snd (updateParentHash (js ''/a b'') page1)) = js ''#chekin=%2Fa%20b''"
    by code_simp
  have n: "hashRoute_of (js ''/a b'') = js ''#/a b''"
    by code_simp
  from f have h2: "updateParentHash (js ''/a b'') page1
                     = (None, snd (updateParentHash (js ''/a b'') page1))"
    by (simp add: prod_eq_iff)
  have h3: "js ''/a b'' \<noteq> []" "js ''/a b'' \<noteq> js ''#''" "take 2 (js ''/a b'') \<noteq> js ''##''"
    by (simp_all add: js_def cu_def)
  from C4_route_round_trip [OF h1 h2 h3] h1 f l n show ?thesis
    by simp
qed

text \<open>
  Paths the round trip does not restore: \<open>##a\<close> comes back as \<open>#a\<close>; the hash written
  for \<open>#\<close> does not match the pattern, whose group needs at least one character; and a
  path holding a lone surrogate cannot be encoded at all.
\<close>

theorem C4_double_hash_not_restored:
  "encode_hash (js ''chekin'') (js ''##a'') = Inr (js ''#chekin=%23a'') \<and>
   decode_hash (js ''chekin'') (js ''#chekin=%23a'') = Inr (Some (js ''#a'')) \<and>
   hashRoute_of (js ''#a'') = js ''#a'' \<and>
   hashRoute_of (js ''##a'') = js ''##a'' \<and>
   js ''#a'' \<noteq> js ''##a'' \<and>
   encode_hash (js ''chekin'') (js ''#'') = Inr (js ''#chekin='') \<and>
   decode_hash (js ''chekin'') (js ''#chekin='') = Inr None \<and>
   encode_hash (js ''chekin'') [0xD800] = Inl URIError"
  by code_simp

end
